theory Spec2Isabelle
  imports Main
begin

section \<open>Python strings and paths\<close>

text \<open>
  Strings are lists of bytes. The helpers below follow the Python operations the
  program applies to its strings, on ASCII text: \<open>str.strip\<close>, \<open>str.startswith\<close>,
  \<open>str.endswith\<close>, the substring test \<open>sub in s\<close>, \<open>str.replace\<close>, \<open>str.lower\<close>,
  \<open>str.split(sep, 1)\<close>, and from the path libraries \<open>os.path.dirname\<close>,
  \<open>os.path.join\<close> and \<open>pathlib.Path(p).parts\<close> (POSIX flavour).
\<close>

definition isspace :: "char \<Rightarrow> bool" where
  "isspace c = (c \<in> set [CHR 0x09, CHR 0x0A, CHR 0x0B, CHR 0x0C, CHR 0x0D,
                          CHR 0x1C, CHR 0x1D, CHR 0x1E, CHR 0x1F, CHR 0x20])"

definition strip :: "string \<Rightarrow> string" where
  "strip s = rev (dropWhile isspace (rev (dropWhile isspace s)))"

definition startswith :: "string \<Rightarrow> string \<Rightarrow> bool" where
  "startswith s p = (take (length p) s = p)"

definition endswith :: "string \<Rightarrow> string \<Rightarrow> bool" where
  "endswith s p = startswith (rev s) (rev p)"

text \<open>\<open>str_in sub s\<close> is Python's \<open>sub in s\<close>.\<close>

fun str_in :: "string \<Rightarrow> string \<Rightarrow> bool" where
  "str_in sub [] = (sub = [])"
| "str_in sub (c # cs) = (startswith (c # cs) sub \<or> str_in sub cs)"

text \<open>
  \<open>s.replace(old, new)\<close>: every non-overlapping occurrence, leftmost first. For an
  empty \<open>old\<close> Python puts \<open>new\<close> before every character and at the end.
\<close>

function replace_nonempty :: "string \<Rightarrow> string \<Rightarrow> string \<Rightarrow> string" where
  "replace_nonempty old new s =
     (if s = [] \<or> old = [] then s
      else if startswith s old then new @ replace_nonempty old new (drop (length old) s)
      else hd s # replace_nonempty old new (tl s))"
  by pat_completeness auto
termination
  by (relation "measure (\<lambda>(old, new, s). length s)") auto

definition replace :: "string \<Rightarrow> string \<Rightarrow> string \<Rightarrow> string" where
  "replace s old new =
     (if old = [] then new @ concat (map (\<lambda>c. c # new) s)
      else replace_nonempty old new s)"

definition lower_char :: "char \<Rightarrow> char" where
  "lower_char c =
     (let n = (of_char c :: nat)
      in if of_char CHR ''A'' \<le> n \<and> n \<le> of_char CHR ''Z'' then char_of (n + 32) else c)"

definition lower :: "string \<Rightarrow> string" where
  "lower s = map lower_char s"

text \<open>\<open>split_on sep s\<close> is \<open>s.split(sep)\<close> for a one-character separator.\<close>

fun split_on :: "char \<Rightarrow> string \<Rightarrow> string list" where
  "split_on sep [] = [[]]"
| "split_on sep (c # cs) =
     (if c = sep then [] # split_on sep cs
      else (case split_on sep cs of
              [] \<Rightarrow> [[c]]
            | w # ws \<Rightarrow> (c # w) # ws))"

text \<open>\<open>split_once sep s\<close> is \<open>s.split(sep, 1)\<close> when \<open>sep\<close> occurs in \<open>s\<close>.\<close>

definition split_once :: "char \<Rightarrow> string \<Rightarrow> string \<times> string" where
  "split_once sep s =
     (takeWhile (\<lambda>c. c \<noteq> sep) s, tl (dropWhile (\<lambda>c. c \<noteq> sep) s))"

text \<open>
  \<open>posixpath.dirname\<close>: everything up to and including the last slash, with trailing
  slashes removed unless the head consists of slashes only.
\<close>

definition dirname :: "string \<Rightarrow> string" where
  "dirname p =
     (let head = rev (dropWhile (\<lambda>c. c \<noteq> CHR ''/'') (rev p))
      in if head \<noteq> [] \<and> head \<noteq> replicate (length head) CHR ''/''
         then rev (dropWhile (\<lambda>c. c = CHR ''/'') (rev head))
         else head)"

text \<open>\<open>posixpath.join(a, b)\<close> for two components.\<close>

definition path_join :: "string \<Rightarrow> string \<Rightarrow> string" where
  "path_join a b =
     (if startswith b ''/'' then b
      else if a = [] \<or> endswith a ''/'' then a @ b
      else a @ ''/'' @ b)"

text \<open>
  \<open>PurePosixPath(p).parts\<close>: the root (\<open>/\<close>, or \<open>//\<close> for exactly two leading slashes)
  followed by the components between slashes, empty components and \<open>.\<close> dropped.
\<close>

definition path_root :: "string \<Rightarrow> string \<times> string" where
  "path_root p =
     (if \<not> startswith p ''/'' then ('''', p)
      else if \<not> startswith (drop 1 p) ''/'' \<or> startswith (drop 2 p) ''/''
           then (''/'', drop 1 p)
      else (''//'', drop 2 p))"

definition path_parts :: "string \<Rightarrow> string list" where
  "path_parts p =
     (let (root, rel) = path_root p;
          tail = filter (\<lambda>x. x \<noteq> [] \<and> x \<noteq> ''.'') (split_on CHR ''/'' rel)
      in if root \<noteq> [] then root # tail else tail)"

text \<open>Truthiness of an optional string: neither \<open>None\<close> nor empty.\<close>

definition truthy :: "string option \<Rightarrow> bool" where
  "truthy t = (case t of None \<Rightarrow> False | Some v \<Rightarrow> v \<noteq> [])"

text \<open>A \<open>dict\<close> of strings, in insertion order; \<open>dict_update d e\<close> is \<open>d.update(e)\<close>.\<close>

fun dict_set :: "'k \<Rightarrow> 'v \<Rightarrow> ('k \<times> 'v) list \<Rightarrow> ('k \<times> 'v) list" where
  "dict_set k v [] = [(k, v)]"
| "dict_set k v ((k', v') # d) =
     (if k = k' then (k, v) # d else (k', v') # dict_set k v d)"

definition dict_update :: "('k \<times> 'v) list \<Rightarrow> ('k \<times> 'v) list \<Rightarrow> ('k \<times> 'v) list" where
  "dict_update d e = fold (\<lambda>(k, v). dict_set k v) e d"

section \<open>The outside world\<close>

text \<open>
  The program talks to the \<open>git\<close> executable, the file system, the GitHub API, the clock
  and the process-wide stop signal. Each of these calls is an event of a trace, recorded
  with its arguments and its outcome. What the outside world answers is given by oracles
  that see the trace so far, so that every deterministic environment is covered. A call
  outside a \<open>try\<close> that catches it may raise: exceptions are values.
\<close>

datatype exn = OSError | ValueError | OtherException

datatype proc_outcome =
    Completed int string string
  | TimeoutExpired
  | ProcRaises exn

datatype http_outcome =
    JsonSha "string option"
  | RequestException
  | HttpRaises exn

datatype event =
    Spawn "string list" string "(string \<times> string) list" nat proc_outcome
  | MakeDirs string bool "exn option"
  | HttpGet string "(string \<times> string) list" nat http_outcome
  | Sleep int
  | Wait int

record ext =
  environ :: "(string \<times> string) list"
  subprocess_run ::
    "event list \<Rightarrow> string list \<Rightarrow> string \<Rightarrow> (string \<times> string) list \<Rightarrow> nat \<Rightarrow> proc_outcome"
  makedirs :: "event list \<Rightarrow> string \<Rightarrow> bool \<Rightarrow> exn option"
  isdir :: "event list \<Rightarrow> string \<Rightarrow> bool"
  requests_get ::
    "event list \<Rightarrow> string \<Rightarrow> (string \<times> string) list \<Rightarrow> nat \<Rightarrow> http_outcome"
  stop_at :: "nat option"

record sys =
  trace :: "event list"
  clock :: nat

type_synonym 'a io = "sys \<Rightarrow> (exn + 'a) \<times> sys"

definition ret :: "'a \<Rightarrow> 'a io" where
  "ret v s = (Inr v, s)"

definition and_then :: "'a io \<Rightarrow> ('a \<Rightarrow> 'b io) \<Rightarrow> 'b io" where
  "and_then m f s = (case m s of (Inl e, s') \<Rightarrow> (Inl e, s') | (Inr v, s') \<Rightarrow> f v s')"

definition emit :: "event \<Rightarrow> sys \<Rightarrow> sys" where
  "emit e s = s\<lparr>trace := trace s @ [e]\<rparr>"

definition os_makedirs :: "ext \<Rightarrow> string \<Rightarrow> bool \<Rightarrow> unit io" where
  "os_makedirs x path exist_ok s =
     (let r = makedirs x (trace s) path exist_ok;
          s' = emit (MakeDirs path exist_ok r) s
      in case r of None \<Rightarrow> (Inr (), s') | Some e \<Rightarrow> (Inl e, s'))"

section \<open>git_ops.py\<close>

definition repo_url_with_token :: "string \<Rightarrow> string option \<Rightarrow> string" where
  "repo_url_with_token repo0 token =
     (let repo = strip repo0;
          url = (if startswith repo ''https://'' then Some repo
                 else if startswith repo ''git@'' then None
                 else Some (''https://github.com/'' @ repo @ ''.git''))
      in case url of
           None \<Rightarrow> repo
         | Some u \<Rightarrow>
             (if truthy token \<and> str_in ''github.com'' u
              then replace u ''https://'' (''https://'' @ the token @ ''@'')
              else u))"

text \<open>
  \<open>_run_git\<close>: one \<open>subprocess.run\<close> of \<open>["git"] + args\<close> with the timeout 120. The
  environment is \<open>os.environ\<close> updated by \<open>env\<close> when \<open>env\<close> is given and not empty. Only
  \<open>TimeoutExpired\<close> is caught.
\<close>

definition run_git ::
  "ext \<Rightarrow> string \<Rightarrow> string list \<Rightarrow> (string \<times> string) list option \<Rightarrow> (int \<times> string \<times> string) io"
where
  "run_git x cwd args env s =
     (let full_env = (case env of
                        None \<Rightarrow> environ x
                      | Some e \<Rightarrow> if e \<noteq> [] then dict_update (environ x) e else environ x);
          r = subprocess_run x (trace s) (''git'' # args) cwd full_env 120;
          s' = emit (Spawn (''git'' # args) cwd full_env 120 r) s
      in case r of
           Completed returncode out err \<Rightarrow> (Inr (returncode, out, err), s')
         | TimeoutExpired \<Rightarrow> (Inr (- 1, '''', ''Timeout''), s')
         | ProcRaises e \<Rightarrow> (Inl e, s'))"

definition clone :: "ext \<Rightarrow> string \<Rightarrow> string \<Rightarrow> string option \<Rightarrow> string \<Rightarrow> bool io" where
  "clone x repo local_path token branch =
     (let url = repo_url_with_token repo token;
          parent = (if dirname local_path \<noteq> [] then dirname local_path else ''.'')
      in and_then (os_makedirs x parent True) (\<lambda>_.
         and_then (run_git x ''.'' [''clone'', ''--depth'', ''1'', ''-b'', branch, url, local_path] None)
           (\<lambda>(code, out, err).
              if code \<noteq> 0 then
                (if str_in ''not found'' (lower err) \<or> str_in ''couldn't find'' (lower err)
                 then and_then (run_git x ''.'' [''clone'', ''--depth'', ''1'', url, local_path] None)
                        (\<lambda>(code2, out2, err2). if code2 = 0 then ret True else ret False)
                 else ret False)
              else ret True)))"

definition set_remote_url :: "ext \<Rightarrow> string \<Rightarrow> string \<Rightarrow> string option \<Rightarrow> unit io" where
  "set_remote_url x local_path repo token =
     (let url = repo_url_with_token repo token
      in and_then (run_git x local_path [''remote'', ''set-url'', ''origin'', url] None)
           (\<lambda>_. ret ()))"

text \<open>The guard \<open>if repo and token: _set_remote_url(...)\<close> that opens pull, push and pull_before_push.\<close>

definition refresh_remote :: "ext \<Rightarrow> string \<Rightarrow> string option \<Rightarrow> string option \<Rightarrow> unit io" where
  "refresh_remote x local_path repo token =
     (if truthy repo \<and> truthy token then set_remote_url x local_path (the repo) token
      else ret ())"

definition pull :: "ext \<Rightarrow> string \<Rightarrow> string option \<Rightarrow> string option \<Rightarrow> bool io" where
  "pull x local_path token repo =
     and_then (refresh_remote x local_path repo token) (\<lambda>_.
     and_then (run_git x local_path [''pull''] None)
       (\<lambda>(code, out, err). if code \<noteq> 0 then ret False else ret True))"

definition add_all :: "ext \<Rightarrow> string \<Rightarrow> bool io" where
  "add_all x local_path =
     and_then (run_git x local_path [''add'', ''-A''] None)
       (\<lambda>(code, out, err). if code \<noteq> 0 then ret False else ret True)"

definition has_changes :: "ext \<Rightarrow> string \<Rightarrow> bool io" where
  "has_changes x local_path =
     and_then (run_git x local_path [''status'', ''--porcelain''] None)
       (\<lambda>(code, out, err). ret (code = 0 \<and> strip out \<noteq> []))"

definition commit :: "ext \<Rightarrow> string \<Rightarrow> string \<Rightarrow> string \<Rightarrow> string \<Rightarrow> bool io" where
  "commit x local_path message user_name user_email =
     (let env = [(''GIT_AUTHOR_NAME'', user_name), (''GIT_AUTHOR_EMAIL'', user_email)]
      in and_then (run_git x local_path [''commit'', ''-m'', message] (Some env))
           (\<lambda>(code, out, err).
              if code \<noteq> 0 then
                (if str_in ''nothing to commit'' err then ret True else ret False)
              else ret True))"

definition push ::
  "ext \<Rightarrow> string \<Rightarrow> string option \<Rightarrow> string option \<Rightarrow> string option \<Rightarrow> bool io"
where
  "push x local_path token branch repo =
     and_then (refresh_remote x local_path repo token) (\<lambda>_.
       (let args = [''push''] @ (if truthy branch then [''origin'', the branch] else [])
        in and_then (run_git x local_path args None)
             (\<lambda>(code, out, err). if code \<noteq> 0 then ret False else ret True)))"

definition is_git_repo :: "ext \<Rightarrow> string \<Rightarrow> bool io" where
  "is_git_repo x path s = (Inr (isdir x (trace s) (path_join path ''.git'')), s)"

definition get_default_branch :: "ext \<Rightarrow> string \<Rightarrow> string io" where
  "get_default_branch x local_path =
     and_then (run_git x local_path [''rev-parse'', ''--abbrev-ref'', ''HEAD''] None)
       (\<lambda>(code, out, err). if code = 0 \<and> strip out \<noteq> [] then ret (strip out) else ret ''main'')"

definition pull_before_push :: "ext \<Rightarrow> string \<Rightarrow> string option \<Rightarrow> string option \<Rightarrow> bool io" where
  "pull_before_push x local_path repo token =
     and_then (refresh_remote x local_path repo token) (\<lambda>_.
     and_then (run_git x local_path [''pull'', ''--rebase''] None)
       (\<lambda>(code, out, err). if code \<noteq> 0 then ret False else ret True))"

section \<open>local_watcher.py\<close>

text \<open>
  The constructor arguments of \<open>DebouncedCommitHandler\<close>. Its mutable part is the
  reference \<open>_timer\<close>; the \<open>threading.Timer\<close> objects it creates live in a heap of their
  own. A \<open>Timer\<close> is its deadline (the time it was started plus its interval) and its
  \<open>finished\<close> flag, which \<open>cancel()\<close> sets and which the timer thread reads when the
  deadline is reached: it calls its function only if the flag is not set, and sets it
  afterwards.
\<close>

record handler =
  h_local_path :: string
  h_debounce_seconds :: int
  h_user_name :: string
  h_user_email :: string
  h_token :: "string option"
  h_repo :: "string option"
  h_branch :: "string option"
  h_pull_before_push :: bool

record timer =
  deadline :: nat
  finished :: bool

record watcher =
  timers :: "timer list"
  timer_ref :: "nat option"
  fired :: "nat list"
  world :: sys

text \<open>The state \<open>__init__\<close> leaves: no timer, nothing fired yet.\<close>

definition init_watcher :: "sys \<Rightarrow> watcher" where
  "init_watcher s = \<lparr>timers = [], timer_ref = None, fired = [], world = s\<rparr>"

definition cancel :: "nat \<Rightarrow> timer list \<Rightarrow> timer list" where
  "cancel i ts = (if i < length ts then ts[i := (ts ! i)\<lparr>finished := True\<rparr>] else ts)"

definition reset_timer :: "handler \<Rightarrow> nat \<Rightarrow> watcher \<Rightarrow> watcher" where
  "reset_timer h now w =
     (let ts = (case timer_ref w of Some i \<Rightarrow> cancel i (timers w) | None \<Rightarrow> timers w);
          t = \<lparr>deadline = now + nat (h_debounce_seconds h), finished = False\<rparr>
      in w\<lparr>timers := ts @ [t], timer_ref := Some (length ts)\<rparr>)"

definition do_commit_and_push :: "ext \<Rightarrow> handler \<Rightarrow> string \<Rightarrow> unit io" where
  "do_commit_and_push x h local_path =
     (let stage_commit_push =
            and_then (add_all x local_path) (\<lambda>staged.
              if \<not> staged then ret () else
            and_then (commit x local_path ''GitSync: auto sync'' (h_user_name h) (h_user_email h))
              (\<lambda>committed.
              if \<not> committed then ret () else
            and_then (push x local_path (h_token h) (h_branch h) (h_repo h)) (\<lambda>pushed. ret ())))
      in and_then (is_git_repo x local_path) (\<lambda>initialized.
           if \<not> initialized then ret () else
         and_then (has_changes x local_path) (\<lambda>changed.
           if \<not> changed then ret ()
           else if h_pull_before_push h then
             and_then (pull_before_push x local_path (h_repo h) (h_token h)) (\<lambda>pulled.
               if \<not> pulled then ret () else stage_commit_push)
           else stage_commit_push)))"

text \<open>
  \<open>_on_timer\<close> runs in the timer's thread at time \<open>now\<close>: it clears the reference and runs
  the sync sequence. An exception of the sequence ends that thread only.
\<close>

definition on_timer :: "ext \<Rightarrow> handler \<Rightarrow> nat \<Rightarrow> watcher \<Rightarrow> watcher" where
  "on_timer x h now w =
     (let w1 = w\<lparr>timer_ref := None\<rparr>;
          (r, s) = do_commit_and_push x h (h_local_path h) ((world w1)\<lparr>clock := now\<rparr>)
      in w1\<lparr>fired := fired w1 @ [now], world := s\<rparr>)"

datatype event_kind = Created | Modified | Deleted | Moved | OtherKind

record fs_event =
  kind :: event_kind
  src_path :: "string option"
  is_directory :: bool

definition on_event :: "handler \<Rightarrow> nat \<Rightarrow> fs_event \<Rightarrow> watcher \<Rightarrow> watcher" where
  "on_event h now ev w =
     (let src = (if truthy (src_path ev) then the (src_path ev) else '''')
      in if ''.git'' \<in> set (path_parts src) then w else reset_timer h now w)"

definition on_modified :: "handler \<Rightarrow> nat \<Rightarrow> fs_event \<Rightarrow> watcher \<Rightarrow> watcher" where
  "on_modified h now ev w = (if is_directory ev then w else on_event h now ev w)"

definition on_created :: "handler \<Rightarrow> nat \<Rightarrow> fs_event \<Rightarrow> watcher \<Rightarrow> watcher" where
  "on_created h now ev w = on_event h now ev w"

definition on_deleted :: "handler \<Rightarrow> nat \<Rightarrow> fs_event \<Rightarrow> watcher \<Rightarrow> watcher" where
  "on_deleted h now ev w = on_event h now ev w"

definition on_moved :: "handler \<Rightarrow> nat \<Rightarrow> fs_event \<Rightarrow> watcher \<Rightarrow> watcher" where
  "on_moved h now ev w = on_event h now ev w"

text \<open>
  \<open>FileSystemEventHandler.dispatch\<close>: the method of the event's kind; the kinds the
  class does not override do nothing.
\<close>

definition dispatch :: "handler \<Rightarrow> nat \<Rightarrow> fs_event \<Rightarrow> watcher \<Rightarrow> watcher" where
  "dispatch h now ev w =
     (case kind ev of
        Created \<Rightarrow> on_created h now ev w
      | Modified \<Rightarrow> on_modified h now ev w
      | Deleted \<Rightarrow> on_deleted h now ev w
      | Moved \<Rightarrow> on_moved h now ev w
      | OtherKind \<Rightarrow> w)"

text \<open>
  The timer threads. \<open>timer_run\<close> is \<open>threading.Timer.run\<close> at the timer's deadline.
  \<open>advance x h t\<close> lets time pass up to \<open>t\<close>: the timers whose deadline is reached
  run, earliest first. \<open>run_events\<close> delivers timestamped events in order, letting time
  pass up to each event first.
\<close>

definition timer_run :: "ext \<Rightarrow> handler \<Rightarrow> nat \<Rightarrow> watcher \<Rightarrow> watcher" where
  "timer_run x h i w =
     (if i < length (timers w) \<and> \<not> finished (timers w ! i)
      then (let w1 = on_timer x h (deadline (timers w ! i)) w
            in w1\<lparr>timers := cancel i (timers w1)\<rparr>)
      else w)"

definition due :: "nat \<Rightarrow> watcher \<Rightarrow> nat list" where
  "due t w =
     sort_key (\<lambda>i. deadline (timers w ! i))
       (filter (\<lambda>i. \<not> finished (timers w ! i) \<and> deadline (timers w ! i) \<le> t)
          [0 ..< length (timers w)])"

definition advance :: "ext \<Rightarrow> handler \<Rightarrow> nat \<Rightarrow> watcher \<Rightarrow> watcher" where
  "advance x h t w = fold (timer_run x h) (due t w) w"

fun run_events :: "ext \<Rightarrow> handler \<Rightarrow> (nat \<times> fs_event) list \<Rightarrow> watcher \<Rightarrow> watcher" where
  "run_events x h [] w = w"
| "run_events x h ((t, ev) # evs) w = run_events x h evs (dispatch h t ev (advance x h t w))"

text \<open>Timestamps in order, each less than \<open>d\<close> after the one before.\<close>

fun burst :: "nat \<Rightarrow> nat list \<Rightarrow> bool" where
  "burst d [] = True"
| "burst d [t] = True"
| "burst d (t # t' # ts) = (t \<le> t' \<and> t' < t + d \<and> burst d (t' # ts))"

section \<open>github_poller.py\<close>

definition GITHUB_API :: string where
  "GITHUB_API = ''https://api.github.com''"

text \<open>
  The two regular expressions of \<open>_normalize_repo\<close> end in \<open>([^/]+)/(G+)\<close>, where \<open>G\<close> is
  a negated character class: the first group is the longest run without a slash, it
  must not be empty and a slash must follow; the second group is the longest run of
  \<open>G\<close>, not empty. \<open>match_groups stop rest\<close> matches this at the head of \<open>rest\<close>, with
  \<open>stop\<close> the characters that \<open>G\<close> excludes.
\<close>

definition match_groups :: "(char \<Rightarrow> bool) \<Rightarrow> string \<Rightarrow> (string \<times> string) option" where
  "match_groups stop rest =
     (let g1 = takeWhile (\<lambda>c. c \<noteq> CHR ''/'') rest;
          after = dropWhile (\<lambda>c. c \<noteq> CHR ''/'') rest
      in if g1 = [] \<or> after = [] then None
         else (let g2 = takeWhile (\<lambda>c. \<not> stop c) (tl after)
               in if g2 = [] then None else Some (g1, g2)))"

text \<open>\<open>re.match(r"https?://github\.com/([^/]+)/([^/.]+)", repo)\<close>\<close>

definition match_https :: "string \<Rightarrow> (string \<times> string) option" where
  "match_https repo =
     (let stop = (\<lambda>c. c = CHR ''/'' \<or> c = CHR ''.'')
      in if startswith repo ''https://github.com/''
         then match_groups stop (drop (length ''https://github.com/'') repo)
         else if startswith repo ''http://github.com/''
         then match_groups stop (drop (length ''http://github.com/'') repo)
         else None)"

text \<open>\<open>re.search(r"github\.com:([^/]+)/([^.]+)", repo)\<close>: the leftmost match.\<close>

fun search_ssh :: "string \<Rightarrow> (string \<times> string) option" where
  "search_ssh [] = None"
| "search_ssh (c # cs) =
     (case (if startswith (c # cs) ''github.com:''
            then match_groups (\<lambda>c. c = CHR ''.'') (drop (length ''github.com:'') (c # cs))
            else None) of
        Some m \<Rightarrow> Some m
      | None \<Rightarrow> search_ssh cs)"

definition normalize_repo :: "string \<Rightarrow> string" where
  "normalize_repo repo0 =
     (let repo = strip repo0
      in case match_https repo of
           Some (g1, g2) \<Rightarrow> g1 @ ''/'' @ g2
         | None \<Rightarrow>
             (case (if startswith repo ''git@'' then search_ssh repo else None) of
                Some (g1, g2) \<Rightarrow> g1 @ ''/'' @ g2
              | None \<Rightarrow> repo))"

text \<open>
  \<open>fetch_latest_sha\<close>: one GET with the timeout 10. A \<open>RequestException\<close> (transport
  error, error status) gives \<open>None\<close>, as does a reply without a \<open>sha\<close>; any other
  exception goes on to the caller.
\<close>

definition fetch_latest_sha ::
  "ext \<Rightarrow> string \<Rightarrow> string \<Rightarrow> string \<Rightarrow> string option \<Rightarrow> string option io"
where
  "fetch_latest_sha x owner repo_name branch token s =
     (let url = GITHUB_API @ ''/repos/'' @ owner @ ''/'' @ repo_name @ ''/commits/'' @ branch;
          headers = [(''Accept'', ''application/vnd.github.v3+json'')] @
                    (if truthy token then [(''Authorization'', ''Bearer '' @ the token)] else []);
          r = requests_get x (trace s) url headers 10;
          s' = emit (HttpGet url headers 10 r) s
      in case r of
           JsonSha sha \<Rightarrow> (Inr sha, s')
         | RequestException \<Rightarrow> (Inr None, s')
         | HttpRaises e \<Rightarrow> (Inl e, s'))"

text \<open>
  The stop signal is set from outside at the time \<open>stop_at\<close>, if ever. \<open>time.sleep(n)\<close>
  blocks for \<open>n\<close> seconds whatever the signal does, and raises on a negative \<open>n\<close>;
  \<open>stop_event.wait(n)\<close> returns when the signal is set or after \<open>n\<close> seconds, whichever
  comes first.
\<close>

definition is_set :: "ext \<Rightarrow> sys \<Rightarrow> bool" where
  "is_set x s = (case stop_at x of None \<Rightarrow> False | Some t \<Rightarrow> t \<le> clock s)"

definition time_sleep :: "int \<Rightarrow> unit io" where
  "time_sleep n s =
     (if n < 0 then (Inl ValueError, s)
      else (Inr (), (emit (Sleep n) s)\<lparr>clock := clock s + nat n\<rparr>))"

definition stop_wait :: "ext \<Rightarrow> int \<Rightarrow> sys \<Rightarrow> sys" where
  "stop_wait x n s =
     (emit (Wait n) s)\<lparr>clock :=
        (case stop_at x of
           None \<Rightarrow> clock s + nat n
         | Some t \<Rightarrow> if t \<le> clock s then clock s else min (clock s + nat n) t)\<rparr>"

text \<open>
  One pass through the \<open>try\<close> block of \<open>poll_loop\<close>. It ends by \<open>continue\<close>, by reaching
  the end of the block, or by an exception; \<open>last_sha\<close> keeps what was assigned before.
\<close>

datatype flow = Continue | Fallthrough

definition call_on_pull :: "(unit io) option \<Rightarrow> unit io" where
  "call_on_pull on_pull = (case on_pull of None \<Rightarrow> ret () | Some f \<Rightarrow> f)"

definition poll_try ::
  "ext \<Rightarrow> string \<Rightarrow> string \<Rightarrow> string option \<Rightarrow> string \<Rightarrow> int \<Rightarrow> (unit io) option \<Rightarrow>
   string \<Rightarrow> string \<Rightarrow> string option \<Rightarrow> sys \<Rightarrow> (exn + flow) \<times> string option \<times> sys"
where
  "poll_try x repo local_path token branch interval_seconds on_pull owner repo_name last_sha s =
     (case fetch_latest_sha x owner repo_name branch token s of
        (Inl e, s1) \<Rightarrow> (Inl e, last_sha, s1)
      | (Inr None, s1) \<Rightarrow>
          (case time_sleep interval_seconds s1 of
             (Inl e, s2) \<Rightarrow> (Inl e, last_sha, s2)
           | (Inr u, s2) \<Rightarrow> (Inr Continue, last_sha, s2))
      | (Inr (Some sha), s1) \<Rightarrow>
          (case is_git_repo x local_path s1 of
             (Inl e, s2) \<Rightarrow> (Inl e, last_sha, s2)
           | (Inr initialized, s2) \<Rightarrow>
               if \<not> initialized then
                 (case clone x repo local_path token branch s2 of
                    (Inl e, s3) \<Rightarrow> (Inl e, last_sha, s3)
                  | (Inr cloned, s3) \<Rightarrow>
                      if cloned then
                        (case call_on_pull on_pull s3 of
                           (Inl e, s4) \<Rightarrow> (Inl e, Some sha, s4)
                         | (Inr u, s4) \<Rightarrow> (Inr Fallthrough, Some sha, s4))
                      else (Inr Fallthrough, last_sha, s3))
               else if last_sha \<noteq> None \<and> Some sha \<noteq> last_sha then
                 (case pull x local_path token (Some repo) s2 of
                    (Inl e, s3) \<Rightarrow> (Inl e, last_sha, s3)
                  | (Inr pulled, s3) \<Rightarrow>
                      if pulled then
                        (case call_on_pull on_pull s3 of
                           (Inl e, s4) \<Rightarrow> (Inl e, Some sha, s4)
                         | (Inr u, s4) \<Rightarrow> (Inr Fallthrough, Some sha, s4))
                      else (Inr Fallthrough, last_sha, s3))
               else (Inr Fallthrough, (if last_sha = None then Some sha else last_sha), s2)))"

text \<open>
  One iteration of the \<open>while\<close> loop: the \<open>try\<close> block, then \<open>stop_event.wait\<close> unless the
  block ended by \<open>continue\<close>. \<open>except Exception\<close> only logs.
\<close>

definition poll_iteration ::
  "ext \<Rightarrow> string \<Rightarrow> string \<Rightarrow> string option \<Rightarrow> string \<Rightarrow> int \<Rightarrow> (unit io) option \<Rightarrow>
   string \<Rightarrow> string \<Rightarrow> string option \<times> sys \<Rightarrow> string option \<times> sys"
where
  "poll_iteration x repo local_path token branch interval_seconds on_pull owner repo_name st =
     (case poll_try x repo local_path token branch interval_seconds on_pull owner repo_name
             (fst st) (snd st) of
        (Inr Continue, last_sha, s) \<Rightarrow> (last_sha, s)
      | (Inr Fallthrough, last_sha, s) \<Rightarrow> (last_sha, stop_wait x interval_seconds s)
      | (Inl e, last_sha, s) \<Rightarrow> (last_sha, stop_wait x interval_seconds s))"

text \<open>
  The \<open>while not stop_event.is_set()\<close> loop. It need not end: the result is \<open>None\<close> when
  it runs forever, and the last-seen revision with the final state when it exits.
\<close>

partial_function (option) poll_while ::
  "ext \<Rightarrow> string \<Rightarrow> string \<Rightarrow> string option \<Rightarrow> string \<Rightarrow> int \<Rightarrow> (unit io) option \<Rightarrow>
   string \<Rightarrow> string \<Rightarrow> string option \<times> sys \<Rightarrow> (string option \<times> sys) option"
where
  "poll_while x repo local_path token branch interval_seconds on_pull owner repo_name st =
     (if is_set x (snd st) then Some st
      else poll_while x repo local_path token branch interval_seconds on_pull owner repo_name
             (poll_iteration x repo local_path token branch interval_seconds on_pull
                owner repo_name st))"

declare poll_while.simps [code]

definition poll_loop ::
  "ext \<Rightarrow> string \<Rightarrow> string \<Rightarrow> string option \<Rightarrow> string \<Rightarrow> int \<Rightarrow> (unit io) option \<Rightarrow>
   sys \<Rightarrow> (string option \<times> sys) option"
where
  "poll_loop x repo local_path token branch interval_seconds on_pull s =
     (let normalized = normalize_repo repo
      in if \<not> str_in ''/'' normalized then Some (None, s)
         else (let (owner, repo_name) = split_once CHR ''/'' normalized
               in poll_while x repo local_path token branch interval_seconds on_pull
                    owner repo_name (None, s)))"

section \<open>Traces\<close>

text \<open>
  The events a run adds to the trace, and the predicates on events the properties below
  speak about: a call of one \<open>git\<close> subcommand, a stage, commit or push call, and an
  invocation that carries the timeout 120.
\<close>

definition new_events :: "sys \<Rightarrow> sys \<Rightarrow> event list" where
  "new_events s s' = drop (length (trace s)) (trace s')"

fun is_git_call :: "string \<Rightarrow> event \<Rightarrow> bool" where
  "is_git_call sub (Spawn args cwd env t r) = (take 2 args = [''git'', sub])"
| "is_git_call sub _ = False"

definition stage_commit_or_push :: "event \<Rightarrow> bool" where
  "stage_commit_or_push e =
     (is_git_call ''add'' e \<or> is_git_call ''commit'' e \<or> is_git_call ''push'' e)"

fun bounded :: "event \<Rightarrow> bool" where
  "bounded (Spawn args cwd env t r) = (t = 120)"
| "bounded _ = True"

text \<open>The environment \<open>_run_git\<close> passes on: \<open>os.environ\<close>, updated by a non-empty \<open>env\<close>.\<close>

definition full_env_of :: "ext \<Rightarrow> (string \<times> string) list option \<Rightarrow> (string \<times> string) list" where
  "full_env_of x env =
     (case env of
        None \<Rightarrow> environ x
      | Some e \<Rightarrow> if e \<noteq> [] then dict_update (environ x) e else environ x)"

text \<open>\<open>emits P m\<close>: from every state, \<open>m\<close> only appends events, and all of them satisfy \<open>P\<close>.\<close>

definition emits :: "(event \<Rightarrow> bool) \<Rightarrow> 'a io \<Rightarrow> bool" where
  "emits P m = (\<forall>s. \<exists>evs. trace (snd (m s)) = trace s @ evs \<and> (\<forall>e \<in> set evs. P e))"

text \<open>
  Concrete environments for the examples: \<open>git\<close> answers by its argument list alone,
  the file system and the API by the trace so far.
\<close>

definition scripted ::
  "(string list \<Rightarrow> proc_outcome) \<Rightarrow> (event list \<Rightarrow> string \<Rightarrow> bool) \<Rightarrow>
   (event list \<Rightarrow> http_outcome) \<Rightarrow> nat option \<Rightarrow> ext"
where
  "scripted git dirs api stop =
     \<lparr>environ = [],
      subprocess_run = (\<lambda>h args cwd env t. git args),
      makedirs = (\<lambda>h p e. None),
      isdir = dirs,
      requests_get = (\<lambda>h url headers t. api h),
      stop_at = stop\<rparr>"

definition start :: sys where
  "start = \<lparr>trace = [], clock = 0\<rparr>"

text \<open>
  What \<open>git commit\<close> answers in a clean working tree: exit status 1, the message on
  standard output, nothing on standard error.
\<close>

definition clean_tree_git :: "string list \<Rightarrow> proc_outcome" where
  "clean_tree_git args =
     (if take 2 args = [''git'', ''commit'']
      then Completed 1 (''On branch main'' @ [CHR 0x0A] @
                        ''nothing to commit, working tree clean'' @ [CHR 0x0A]) ''''
      else Completed 0 '''' '''')"

text \<open>A remote without the branch asked for: \<open>clone -b\<close> fails, a plain \<open>clone\<close> succeeds.\<close>

definition missing_branch_git :: "string list \<Rightarrow> proc_outcome" where
  "missing_branch_git args =
     (if ''-b'' \<in> set args
      then Completed 128 '''' ''fatal: Remote branch dev not found in upstream origin''
      else Completed 0 '''' '''')"

text \<open>A working copy with a local change whose \<open>pull --rebase\<close> fails.\<close>

definition diverged_git :: "string list \<Rightarrow> proc_outcome" where
  "diverged_git args =
     (if args = [''git'', ''status'', ''--porcelain''] then Completed 0 '' M notes.txt'' ''''
      else if args = [''git'', ''pull'', ''--rebase''] then Completed 1 '''' ''CONFLICT''
      else Completed 0 '''' '''')"

definition example_handler :: handler where
  "example_handler =
     \<lparr>h_local_path = ''/data/repo'', h_debounce_seconds = 30, h_user_name = ''GitSync'',
      h_user_email = ''gitsync@local'', h_token = Some ''tok'', h_repo = Some ''owner/repo'',
      h_branch = Some ''main'', h_pull_before_push = True\<rparr>"


text \<open>
  The two shapes of the watcher's timers between events. \<open>quiet\<close>: no timer but the one
  \<open>_timer\<close> refers to can still fire. \<open>armed d t w\<close>: \<open>_timer\<close> refers to a timer that
  was started at \<open>t\<close> with the interval \<open>d\<close> and has not finished, and every other timer
  has finished.
\<close>

definition quiet :: "watcher \<Rightarrow> bool" where
  "quiet w = (\<forall>j < length (timers w). finished (timers w ! j) \<or> timer_ref w = Some j)"

definition armed :: "nat \<Rightarrow> nat \<Rightarrow> watcher \<Rightarrow> bool" where
  "armed d t w =
     (\<exists>i. timer_ref w = Some i \<and> i < length (timers w) \<and>
          deadline (timers w ! i) = t + d \<and> \<not> finished (timers w ! i) \<and>
          (\<forall>j < length (timers w). j \<noteq> i \<longrightarrow> finished (timers w ! j)))"

definition modified_file :: "string \<Rightarrow> fs_event" where
  "modified_file p = \<lparr>kind = Modified, src_path = Some p, is_directory = False\<rparr>"


text \<open>
  For the detector: the clone and pull calls of a trace, in order, and the environment
  of a fresh mirror. There the API answers the successive queries with the listed
  revisions (and fails once they are used up), and the local path is a working copy from
  the first successful clone on.
\<close>

fun gateway_call :: "event \<Rightarrow> string list" where
  "gateway_call (Spawn args cwd env t r) =
     (if take 2 args = [''git'', ''clone''] then [''clone'']
      else if args = [''git'', ''pull''] then [''pull'']
      else [])"
| "gateway_call _ = []"

definition gateway_calls :: "event list \<Rightarrow> string list" where
  "gateway_calls evs = concat (map gateway_call evs)"

fun is_query :: "event \<Rightarrow> bool" where
  "is_query (HttpGet url headers t r) = True"
| "is_query _ = False"

fun is_clone_ok :: "event \<Rightarrow> bool" where
  "is_clone_ok (Spawn args cwd env t (Completed code out err)) =
     (code = 0 \<and> take 2 args = [''git'', ''clone''])"
| "is_clone_ok _ = False"

definition revisions_api :: "string list \<Rightarrow> event list \<Rightarrow> http_outcome" where
  "revisions_api shas h =
     (let k = length (filter is_query h)
      in if k < length shas then JsonSha (Some (shas ! k)) else RequestException)"

definition cloned_dirs :: "string \<Rightarrow> event list \<Rightarrow> string \<Rightarrow> bool" where
  "cloned_dirs local_path h p = (p = path_join local_path ''.git'' \<and> list_ex is_clone_ok h)"

definition all_succeed :: "string list \<Rightarrow> proc_outcome" where
  "all_succeed args = Completed 0 '''' ''''"


definition modified_directory :: "string \<Rightarrow> fs_event" where
  "modified_directory p = \<lparr>kind = Modified, src_path = Some p, is_directory = True\<rparr>"

text \<open>
  The qualifying events in the words of the specification, section 4.3, not of the code:
  the watcher subscribes to create, modify, delete and move notifications, and the only
  events it discards are those whose path lies inside the version-control metadata
  subdirectory, that is, has \<open>.git\<close> among its components.
\<close>

definition spec_qualifying :: "fs_event \<Rightarrow> bool" where
  "spec_qualifying ev =
     (kind ev \<in> {Created, Modified, Deleted, Moved} \<and>
      ''.git'' \<notin> set (path_parts (case src_path ev of None \<Rightarrow> [] | Some p \<Rightarrow> p)))"

text \<open>An environment in which the local path is not a working copy.\<close>

definition no_working_copy :: ext where
  "no_working_copy = scripted all_succeed (\<lambda>h p. False) (\<lambda>h. RequestException) None"


section \<open>Properties of the gateway\<close>

subsection \<open>What an operation adds to the trace\<close>

lemma emitsD:
  "emits P m \<Longrightarrow> m s = (r, s') \<Longrightarrow> \<exists>evs. trace s' = trace s @ evs \<and> (\<forall>e \<in> set evs. P e)"
  unfolding emits_def by (metis snd_conv)

lemma emits_ret: "emits P (ret v)"
  by (simp add: emits_def ret_def)

lemma emits_and_then:
  assumes "emits P m" and "\<And>v. emits P (f v)"
  shows "emits P (and_then m f)"
  unfolding emits_def
proof
  fix s
  obtain r s1 where m: "m s = (r, s1)" by (cases "m s")
  from emitsD[OF assms(1) m] obtain evs1
    where e1: "trace s1 = trace s @ evs1" "\<forall>e \<in> set evs1. P e" by blast
  show "\<exists>evs. trace (snd (and_then m f s)) = trace s @ evs \<and> (\<forall>e \<in> set evs. P e)"
  proof (cases r)
    case (Inl e)
    with m e1 show ?thesis by (auto simp: and_then_def)
  next
    case (Inr v)
    obtain r2 s2 where f: "f v s1 = (r2, s2)" by (cases "f v s1")
    from emitsD[OF assms(2) f] obtain evs2
      where e2: "trace s2 = trace s1 @ evs2" "\<forall>e \<in> set evs2. P e" by blast
    have "trace (snd (and_then m f s)) = trace s @ (evs1 @ evs2)"
      using m Inr f e1 e2 by (simp add: and_then_def)
    moreover have "\<forall>e \<in> set (evs1 @ evs2). P e" using e1 e2 by auto
    ultimately show ?thesis by blast
  qed
qed

lemma emits_if: "emits P a \<Longrightarrow> emits P b \<Longrightarrow> emits P (if c then a else b)"
  by simp

lemma emits_is_git_repo: "emits P (is_git_repo x path)"
  unfolding emits_def by (simp add: is_git_repo_def)

lemmas emits_intros = emits_and_then emits_ret emits_if emits_is_git_repo

lemma new_events_emits2:
  assumes "emits P m1" "m1 s = (r1, s1)" "emits P m2" "m2 s1 = (r2, s2)"
  shows "\<forall>e \<in> set (new_events s s2). P e"
proof -
  from emitsD[OF assms(1,2)] obtain evs1
    where e1: "trace s1 = trace s @ evs1" "\<forall>e \<in> set evs1. P e" by blast
  from emitsD[OF assms(3,4)] obtain evs2
    where e2: "trace s2 = trace s1 @ evs2" "\<forall>e \<in> set evs2. P e" by blast
  have "new_events s s2 = evs1 @ evs2" using e1 e2 by (simp add: new_events_def)
  then show ?thesis using e1 e2 by auto
qed

lemma run_git_trace:
  "trace (snd (run_git x cwd args env s)) =
     trace s @ [Spawn (''git'' # args) cwd (full_env_of x env) 120
                  (subprocess_run x (trace s) (''git'' # args) cwd (full_env_of x env) 120)]"
  by (simp add: run_git_def full_env_of_def emit_def Let_def
           split: proc_outcome.splits option.splits)

lemma run_git_timed_out:
  "subprocess_run x (trace s) (''git'' # args) cwd (full_env_of x env) 120 = TimeoutExpired \<Longrightarrow>
   fst (run_git x cwd args env s) = Inr (- 1, '''', ''Timeout'')"
  by (simp add: run_git_def full_env_of_def emit_def Let_def
           split: proc_outcome.splits option.splits)

lemma emits_run_git_any: "emits (\<lambda>e. True) (run_git x cwd args env)"
  unfolding emits_def by (simp add: run_git_trace)

lemma emits_run_git_bounded: "emits bounded (run_git x cwd args env)"
  unfolding emits_def by (simp add: run_git_trace)

lemma emits_run_git_quiet:
  "sub \<notin> {''add'', ''commit'', ''push''} \<Longrightarrow>
   emits (\<lambda>e. \<not> stage_commit_or_push e) (run_git x cwd (sub # args) env)"
  unfolding emits_def by (auto simp add: run_git_trace stage_commit_or_push_def)

lemma emits_makedirs: "(\<And>p b r. P (MakeDirs p b r)) \<Longrightarrow> emits P (os_makedirs x path ok)"
  unfolding emits_def by (simp add: os_makedirs_def emit_def Let_def split: option.splits)

lemma emits_refresh_bounded: "emits bounded (refresh_remote x lp repo token)"
  unfolding refresh_remote_def set_remote_url_def Let_def
  by (intro emits_intros emits_run_git_bounded)

lemma emits_refresh_quiet:
  "emits (\<lambda>e. \<not> stage_commit_or_push e) (refresh_remote x lp repo token)"
  unfolding refresh_remote_def set_remote_url_def Let_def
  by (intro emits_intros emits_run_git_quiet) simp

lemma emits_has_changes_quiet: "emits (\<lambda>e. \<not> stage_commit_or_push e) (has_changes x lp)"
  unfolding has_changes_def
  by (intro emits_intros emits_run_git_quiet allI) (simp_all add: split_def emits_ret)

lemma emits_pull_before_push_quiet:
  "emits (\<lambda>e. \<not> stage_commit_or_push e) (pull_before_push x lp repo token)"
  unfolding pull_before_push_def
  by (intro emits_intros emits_run_git_quiet emits_refresh_quiet allI)
     (simp_all add: split_def emits_ret)

lemma emits_clone_bounded: "emits bounded (clone x repo lp token branch)"
  unfolding clone_def Let_def split_def
  by (intro emits_intros emits_run_git_bounded emits_makedirs) simp

lemma emits_pull_bounded: "emits bounded (pull x lp token repo)"
  unfolding pull_def Let_def split_def
  by (intro emits_intros emits_run_git_bounded emits_refresh_bounded)

lemma emits_add_all_bounded: "emits bounded (add_all x lp)"
  unfolding add_all_def Let_def split_def
  by (intro emits_intros emits_run_git_bounded)

lemma emits_has_changes_bounded: "emits bounded (has_changes x lp)"
  unfolding has_changes_def Let_def split_def
  by (intro emits_intros emits_run_git_bounded)

lemma emits_commit_bounded: "emits bounded (commit x lp msg un ue)"
  unfolding commit_def Let_def split_def
  by (intro emits_intros emits_run_git_bounded)

lemma emits_push_bounded: "emits bounded (push x lp token branch repo)"
  unfolding push_def Let_def split_def
  by (intro emits_intros emits_run_git_bounded emits_refresh_bounded)

lemma emits_pull_before_push_bounded: "emits bounded (pull_before_push x lp repo token)"
  unfolding pull_before_push_def Let_def split_def
  by (intro emits_intros emits_run_git_bounded emits_refresh_bounded)

lemma emits_get_default_branch_bounded: "emits bounded (get_default_branch x lp)"
  unfolding get_default_branch_def Let_def split_def
  by (intro emits_intros emits_run_git_bounded)

lemma emits_do_commit_and_push_bounded: "emits bounded (do_commit_and_push x h lp)"
  unfolding do_commit_and_push_def Let_def
  by (intro emits_intros emits_has_changes_bounded emits_pull_before_push_bounded
        emits_add_all_bounded emits_commit_bounded emits_push_bounded)

lemmas eval_io =
  and_then_def ret_def run_git_def emit_def os_makedirs_def is_git_repo_def Let_def
  scripted_def start_def startswith_def endswith_def path_join_def truthy_def

subsection \<open>Timeouts\<close>

text \<open>
  C8. Every invocation of \<open>git\<close> carries the timeout 120: \<open>_run_git\<close> adds exactly one
  \<open>subprocess.run\<close> event to the trace, with that timeout, and every gateway operation
  and the watcher's sync sequence add only such invocations. When the invocation times
  out, \<open>_run_git\<close> raises nothing and returns the code \<open>-1\<close>, empty output and the
  diagnostic \<open>Timeout\<close>.
\<close>

theorem git_invocations_bounded:
  "trace (snd (run_git x cwd args env s)) =
     trace s @ [Spawn (''git'' # args) cwd (full_env_of x env) 120
                  (subprocess_run x (trace s) (''git'' # args) cwd (full_env_of x env) 120)] \<and>
   (subprocess_run x (trace s) (''git'' # args) cwd (full_env_of x env) 120 = TimeoutExpired \<longrightarrow>
      fst (run_git x cwd args env s) = Inr (- 1, '''', ''Timeout'')) \<and>
   emits bounded (clone x repo lp token branch) \<and>
   emits bounded (pull x lp token orepo) \<and>
   emits bounded (pull_before_push x lp orepo token) \<and>
   emits bounded (has_changes x lp) \<and>
   emits bounded (add_all x lp) \<and>
   emits bounded (commit x lp msg un ue) \<and>
   emits bounded (push x lp token obranch orepo) \<and>
   emits bounded (get_default_branch x lp) \<and>
   emits bounded (do_commit_and_push x h lp)"
  by (intro conjI impI run_git_trace run_git_timed_out emits_clone_bounded emits_pull_bounded
        emits_pull_before_push_bounded emits_has_changes_bounded emits_add_all_bounded
        emits_commit_bounded emits_push_bounded emits_get_default_branch_bounded
        emits_do_commit_and_push_bounded)

theorem git_invocations_bounded_witness:
  "run_git (scripted (\<lambda>args. TimeoutExpired) (\<lambda>h p. True) (\<lambda>h. RequestException) None)
      ''/data/repo'' [''pull''] None start =
   (Inr (- 1, '''', ''Timeout''),
    \<lparr>trace = [Spawn [''git'', ''pull''] ''/data/repo'' [] 120 TimeoutExpired], clock = 0\<rparr>)"
  using git_invocations_bounded
          [of "scripted (\<lambda>args. TimeoutExpired) (\<lambda>h p. True) (\<lambda>h. RequestException) None"
              "''/data/repo''" "[''pull'']" None start]
  by (simp add: eval_io full_env_of_def prod_eq_iff)

subsection \<open>Commit\<close>

text \<open>
  C6. With nothing staged, \<open>git commit\<close> exits with status 1 and prints
  \<open>nothing to commit, working tree clean\<close> on standard output. \<open>commit\<close> looks for the
  phrase in standard error only, so on this answer it reports failure.
\<close>

theorem commit_clean_tree_fails:
  "fst (commit (scripted clean_tree_git (\<lambda>h p. True) (\<lambda>h. RequestException) None)
          ''/data/repo'' ''GitSync: auto sync'' ''GitSync'' ''gitsync@local'' start) = Inr False"
  by (simp add: commit_def clean_tree_git_def eval_io)

text \<open>With the phrase in standard error, a failed \<open>git commit\<close> counts as success.\<close>

lemma commit_nothing_in_stderr:
  assumes "run_git x lp [''commit'', ''-m'', msg]
             (Some [(''GIT_AUTHOR_NAME'', un), (''GIT_AUTHOR_EMAIL'', ue)]) s =
           (Inr (code, out, err), s')"
    and "code \<noteq> 0" and "str_in ''nothing to commit'' err"
  shows "commit x lp msg un ue s = (Inr True, s')"
  using assms by (simp add: commit_def and_then_def ret_def Let_def)

subsection \<open>Clone\<close>

text \<open>
  C9. \<open>clone\<close> first creates the parent directory of the local path (\<open>exist_ok\<close> set).
  When the clone of the named branch fails and its diagnostic says the branch was not
  found, \<open>clone\<close> runs a second clone without \<open>-b\<close>, and returns success when that one
  exits with 0.
\<close>

theorem clone_fallback:
  "(os_makedirs x (if dirname lp \<noteq> [] then dirname lp else ''.'') True s = (Inr (), s1) \<and>
    run_git x ''.'' [''clone'', ''--depth'', ''1'', ''-b'', branch, repo_url_with_token repo token, lp]
       None s1 = (Inr (code, out, err), s2) \<and>
    code \<noteq> 0 \<and>
    (str_in ''not found'' (lower err) \<or> str_in ''couldn't find'' (lower err)) \<and>
    run_git x ''.'' [''clone'', ''--depth'', ''1'', repo_url_with_token repo token, lp]
       None s2 = (Inr (0, out2, err2), s3)
    \<longrightarrow> clone x repo lp token branch s = (Inr True, s3)) \<and>
   (\<exists>r rest. new_events s (snd (clone x repo lp token branch s)) =
        MakeDirs (if dirname lp \<noteq> [] then dirname lp else ''.'') True r # rest)"
proof (intro conjI impI)
  assume "os_makedirs x (if dirname lp \<noteq> [] then dirname lp else ''.'') True s = (Inr (), s1) \<and>
    run_git x ''.'' [''clone'', ''--depth'', ''1'', ''-b'', branch, repo_url_with_token repo token, lp]
       None s1 = (Inr (code, out, err), s2) \<and>
    code \<noteq> 0 \<and>
    (str_in ''not found'' (lower err) \<or> str_in ''couldn't find'' (lower err)) \<and>
    run_git x ''.'' [''clone'', ''--depth'', ''1'', repo_url_with_token repo token, lp]
       None s2 = (Inr (0, out2, err2), s3)"
  then show "clone x repo lp token branch s = (Inr True, s3)"
    by (simp add: clone_def and_then_def ret_def Let_def)
next
  let ?parent = "if dirname lp \<noteq> [] then dirname lp else ''.''"
  let ?url = "repo_url_with_token repo token"
  let ?rest = "\<lambda>u::unit.
    and_then (run_git x ''.'' [''clone'', ''--depth'', ''1'', ''-b'', branch, ?url, lp] None)
      (\<lambda>(code, out, err).
         if code \<noteq> 0 then
           (if str_in ''not found'' (lower err) \<or> str_in ''couldn't find'' (lower err)
            then and_then (run_git x ''.'' [''clone'', ''--depth'', ''1'', ?url, lp] None)
                   (\<lambda>(code2, out2, err2). if code2 = 0 then ret True else ret False)
            else ret False)
         else ret True)"
  have c: "clone x repo lp token branch = and_then (os_makedirs x ?parent True) ?rest"
    by (simp add: clone_def Let_def)
  obtain r0 s0 where mk: "os_makedirs x ?parent True s = (r0, s0)"
    by (cases "os_makedirs x ?parent True s")
  then have t0: "trace s0 = trace s @ [MakeDirs ?parent True (makedirs x (trace s) ?parent True)]"
    by (auto simp: os_makedirs_def emit_def Let_def split: option.splits)
  have "emits (\<lambda>e. True) (?rest ())"
    by (intro emits_intros emits_run_git_any allI)
       (auto simp: split_def intro!: emits_intros emits_run_git_any)
  then obtain evs where ev: "trace (snd (?rest () s0)) = trace s0 @ evs"
    unfolding emits_def by blast
  have "trace (snd (clone x repo lp token branch s)) =
          trace s0 @ (case r0 of Inl e \<Rightarrow> [] | Inr u \<Rightarrow> evs)"
    unfolding c using mk ev by (cases r0) (simp_all add: and_then_def)
  then show "\<exists>r rest. new_events s (snd (clone x repo lp token branch s)) =
                MakeDirs ?parent True r # rest"
    using t0 by (simp add: new_events_def)
qed


lemmas eval_str = lower_def lower_char_def dirname_def repo_url_with_token_def strip_def isspace_def
  replace_def

theorem clone_fallback_witness:
  "clone (scripted missing_branch_git (\<lambda>h p. False) (\<lambda>h. RequestException) None)
      ''owner/repo'' ''/data/repo'' None ''dev'' start =
   (Inr True,
    \<lparr>trace =
       [MakeDirs ''/data'' True None,
        Spawn [''git'', ''clone'', ''--depth'', ''1'', ''-b'', ''dev'',
               ''https://github.com/owner/repo.git'', ''/data/repo'']
          ''.'' [] 120
          (Completed 128 '''' ''fatal: Remote branch dev not found in upstream origin''),
        Spawn [''git'', ''clone'', ''--depth'', ''1'',
               ''https://github.com/owner/repo.git'', ''/data/repo'']
          ''.'' [] 120 (Completed 0 '''' '''')],
     clock = 0\<rparr>)"
proof -
  let ?x = "scripted missing_branch_git (\<lambda>h p. False) (\<lambda>h. RequestException) None"
  let ?s1 = "\<lparr>trace = [MakeDirs ''/data'' True None], clock = 0\<rparr>"
  let ?e2 = "Spawn [''git'', ''clone'', ''--depth'', ''1'', ''-b'', ''dev'',
               ''https://github.com/owner/repo.git'', ''/data/repo'']
          ''.'' [] 120
          (Completed 128 '''' ''fatal: Remote branch dev not found in upstream origin'')"
  let ?s2 = "\<lparr>trace = [MakeDirs ''/data'' True None, ?e2], clock = 0\<rparr>"
  let ?s3 = "\<lparr>trace = [MakeDirs ''/data'' True None, ?e2,
        Spawn [''git'', ''clone'', ''--depth'', ''1'',
               ''https://github.com/owner/repo.git'', ''/data/repo'']
          ''.'' [] 120 (Completed 0 '''' '''')], clock = 0\<rparr>"
  have u: "repo_url_with_token ''owner/repo'' None = ''https://github.com/owner/repo.git''"
    by (simp add: eval_str eval_io)
  have d: "dirname ''/data/repo'' = ''/data''"
    by (simp add: eval_str)
  have a: "os_makedirs ?x (if dirname ''/data/repo'' \<noteq> [] then dirname ''/data/repo'' else ''.'') True start = (Inr (), ?s1)"
    by (simp add: d eval_io)
  have b: "run_git ?x ''.'' [''clone'', ''--depth'', ''1'', ''-b'', ''dev'', repo_url_with_token ''owner/repo'' None, ''/data/repo'']
       None ?s1 = (Inr (128, '''', ''fatal: Remote branch dev not found in upstream origin''), ?s2)"
    by (simp add: u eval_io missing_branch_git_def)
  have c: "str_in ''not found'' (lower ''fatal: Remote branch dev not found in upstream origin'')"
    by (simp add: eval_str eval_io)
  have e: "run_git ?x ''.'' [''clone'', ''--depth'', ''1'', repo_url_with_token ''owner/repo'' None, ''/data/repo'']
       None ?s2 = (Inr (0, '''', ''''), ?s3)"
    by (simp add: u eval_io missing_branch_git_def)
  from clone_fallback[of ?x "''/data/repo''" start ?s1 "''dev''" "''owner/repo''" None 128 "''''"
      "''fatal: Remote branch dev not found in upstream origin''" ?s2 "''''" "''''" ?s3] a b c e
  show ?thesis by simp
qed

section \<open>Properties of the watcher's sync sequence\<close>

text \<open>
  C3. In a sync cycle with pull-before-push configured that reaches the pull-rebase,
  when \<open>pull_before_push\<close> does not return success (it returns failure, or raises), the
  cycle ends there: the state is the one the pull-rebase left, and the cycle has made no
  stage, commit or push call.
\<close>

theorem pull_rebase_failure_aborts:
  assumes flag: "h_pull_before_push h"
    and repo: "isdir x (trace s) (path_join lp ''.git'')"
    and changed: "has_changes x lp s = (Inr True, s1)"
    and pulled: "pull_before_push x lp (h_repo h) (h_token h) s1 = (r, s2)"
    and failed: "r \<noteq> Inr True"
  shows "do_commit_and_push x h lp s = ((case r of Inl e \<Rightarrow> Inl e | Inr b \<Rightarrow> Inr ()), s2) \<and>
         (\<forall>e \<in> set (new_events s s2). \<not> stage_commit_or_push e)"
proof
  show "do_commit_and_push x h lp s = ((case r of Inl e \<Rightarrow> Inl e | Inr b \<Rightarrow> Inr ()), s2)"
    using flag repo changed pulled failed
    by (cases r)
       (simp_all add: do_commit_and_push_def and_then_def ret_def is_git_repo_def Let_def)
  show "\<forall>e \<in> set (new_events s s2). \<not> stage_commit_or_push e"
    by (rule new_events_emits2
              [OF emits_has_changes_quiet changed emits_pull_before_push_quiet pulled])
qed

theorem pull_rebase_failure_aborts_witness:
  "do_commit_and_push (scripted diverged_git (\<lambda>h p. True) (\<lambda>h. RequestException) None)
      example_handler ''/data/repo'' start =
   (Inr (),
    \<lparr>trace =
       [Spawn [''git'', ''status'', ''--porcelain''] ''/data/repo'' [] 120
          (Completed 0 '' M notes.txt'' ''''),
        Spawn [''git'', ''remote'', ''set-url'', ''origin'',
               ''https://tok@github.com/owner/repo.git'']
          ''/data/repo'' [] 120 (Completed 0 '''' ''''),
        Spawn [''git'', ''pull'', ''--rebase''] ''/data/repo'' [] 120
          (Completed 1 '''' ''CONFLICT'')],
     clock = 0\<rparr>)"
proof -
  let ?x = "scripted diverged_git (\<lambda>h p. True) (\<lambda>h. RequestException) None"
  let ?e1 = "Spawn [''git'', ''status'', ''--porcelain''] ''/data/repo'' [] 120
          (Completed 0 '' M notes.txt'' '''')"
  let ?s1 = "\<lparr>trace = [?e1], clock = 0\<rparr>"
  let ?s2 = "\<lparr>trace =
       [?e1,
        Spawn [''git'', ''remote'', ''set-url'', ''origin'',
               ''https://tok@github.com/owner/repo.git'']
          ''/data/repo'' [] 120 (Completed 0 '''' ''''),
        Spawn [''git'', ''pull'', ''--rebase''] ''/data/repo'' [] 120
          (Completed 1 '''' ''CONFLICT'')],
     clock = 0\<rparr>"
  have u: "repo_url_with_token ''owner/repo'' (Some ''tok'') =
             ''https://tok@github.com/owner/repo.git''"
    by (simp add: eval_str eval_io)
  have a: "h_pull_before_push example_handler"
    by (simp add: example_handler_def)
  have b: "isdir ?x (trace start) (path_join ''/data/repo'' ''.git'')"
    by (simp add: eval_io)
  have c: "has_changes ?x ''/data/repo'' start = (Inr True, ?s1)"
    by (simp add: has_changes_def diverged_git_def eval_io eval_str)
  have d: "pull_before_push ?x ''/data/repo'' (h_repo example_handler)
             (h_token example_handler) ?s1 = (Inr False, ?s2)"
    by (simp add: pull_before_push_def refresh_remote_def set_remote_url_def u
          example_handler_def diverged_git_def eval_io)
  from pull_rebase_failure_aborts[OF a b c d] show ?thesis by simp
qed

text \<open>
  C4. In a sync cycle whose \<open>has_changes\<close> reports false, the sequence returns without an
  error after the status query (or before it, when the directory is not a working copy)
  and makes no stage, commit or push call.
\<close>

theorem no_changes_no_commit:
  assumes unchanged: "has_changes x lp s = (Inr False, s1)"
  shows "do_commit_and_push x h lp s =
           (Inr (), if isdir x (trace s) (path_join lp ''.git'') then s1 else s) \<and>
         (\<forall>e \<in> set (new_events s (snd (do_commit_and_push x h lp s))).
            \<not> stage_commit_or_push e)"
proof -
  have eq: "do_commit_and_push x h lp s =
              (Inr (), if isdir x (trace s) (path_join lp ''.git'') then s1 else s)"
    using unchanged
    by (simp add: do_commit_and_push_def and_then_def ret_def is_git_repo_def Let_def)
  from emitsD[OF emits_has_changes_quiet unchanged]
  obtain evs where "trace s1 = trace s @ evs" "\<forall>e \<in> set evs. \<not> stage_commit_or_push e"
    by blast
  then have "\<forall>e \<in> set (new_events s
                 (if isdir x (trace s) (path_join lp ''.git'') then s1 else s)).
               \<not> stage_commit_or_push e"
    by (simp add: new_events_def)
  with eq show ?thesis by simp
qed

theorem no_changes_no_commit_witness:
  "do_commit_and_push
      (scripted (\<lambda>args. Completed 0 '''' '''') (\<lambda>h p. True) (\<lambda>h. RequestException) None)
      example_handler ''/data/repo'' start =
   (Inr (),
    \<lparr>trace = [Spawn [''git'', ''status'', ''--porcelain''] ''/data/repo'' [] 120
                 (Completed 0 '''' '''')],
     clock = 0\<rparr>)"
proof -
  let ?x = "scripted (\<lambda>args. Completed 0 '''' '''') (\<lambda>h p. True) (\<lambda>h. RequestException) None"
  let ?s1 = "\<lparr>trace = [Spawn [''git'', ''status'', ''--porcelain''] ''/data/repo'' [] 120
                 (Completed 0 '''' '''')], clock = 0\<rparr>"
  have a: "has_changes ?x ''/data/repo'' start = (Inr False, ?s1)"
    by (simp add: has_changes_def eval_io eval_str)
  from no_changes_no_commit[OF a, of example_handler] show ?thesis
    by (simp add: eval_io)
qed


section \<open>Properties of the watcher's event handler\<close>

subsection \<open>Events inside the metadata directory\<close>

lemma split_on_nonempty: "split_on sep s \<noteq> []"
  by (induction s) (auto split: list.splits)

lemma split_on_append: "split_on sep (a @ sep # b) = split_on sep a @ split_on sep b"
proof (induction a)
  case Nil
  show ?case by simp
next
  case (Cons c a)
  obtain w ws where "split_on sep a = w # ws"
    using split_on_nonempty[of sep a] by (cases "split_on sep a") auto
  with Cons show ?case by simp
qed

lemma split_on_no_sep: "sep \<notin> set w \<Longrightarrow> split_on sep w = [w]"
  by (induction w) auto

lemma split_on_last_component:
  "sep \<notin> set c \<Longrightarrow> rest = [] \<or> hd rest = sep \<Longrightarrow> c \<in> set (split_on sep (c @ rest))"
proof (cases rest)
  case Nil
  assume "sep \<notin> set c"
  with Nil show ?thesis by (simp add: split_on_no_sep)
next
  case (Cons r rs)
  assume "sep \<notin> set c" "rest = [] \<or> hd rest = sep"
  with Cons show ?thesis by (simp add: split_on_append split_on_no_sep)
qed

lemma git_component:
  assumes "rest = [] \<or> hd rest = CHR ''/''"
  shows "''.git'' \<in> set (split_on CHR ''/'' (path_join watched ''.git'' @ rest))"
proof -
  have g: "''.git'' \<in> set (split_on CHR ''/'' (''.git'' @ rest))"
    by (rule split_on_last_component) (use assms in auto)
  show ?thesis
  proof (cases "watched = []")
    case True
    with g show ?thesis by (simp add: path_join_def startswith_def)
  next
    case False
    show ?thesis
    proof (cases "endswith watched ''/''")
      case True
      then obtain a where "watched = a @ ''/''"
        using False by (cases watched rule: rev_cases) (auto simp: endswith_def startswith_def)
      then have "path_join watched ''.git'' @ rest = a @ CHR ''/'' # (''.git'' @ rest)"
        by (simp add: path_join_def startswith_def endswith_def)
      with g show ?thesis by (simp only: split_on_append) simp
    next
      case no: False
      have "path_join watched ''.git'' @ rest = watched @ CHR ''/'' # (''.git'' @ rest)"
        using no False by (simp add: path_join_def startswith_def)
      with g show ?thesis by (simp only: split_on_append) simp
    qed
  qed
qed

lemma split_on_leading: "split_on sep (sep # p) = [] # split_on sep p"
  by simp

lemma parts_component:
  assumes "c \<in> set (split_on CHR ''/'' p)" "c \<noteq> []" "c \<noteq> ''.''"
  shows "c \<in> set (path_parts p)"
proof -
  have rel: "c \<in> set (split_on CHR ''/'' (snd (path_root p)))"
  proof (cases p)
    case Nil
    with assms show ?thesis by (simp add: path_root_def startswith_def)
  next
    case (Cons a p')
    show ?thesis
    proof (cases "a = CHR ''/''")
      case False
      with Cons assms show ?thesis by (simp add: path_root_def startswith_def)
    next
      case True
      with Cons assms have c1: "c \<in> set (split_on CHR ''/'' p')" by simp
      show ?thesis
      proof (cases p')
        case Nil
        with c1 Cons True show ?thesis by (simp add: path_root_def startswith_def)
      next
        case (Cons b p'')
        note p' = this
        show ?thesis
        proof (cases "b = CHR ''/''")
          case False
          with c1 p' \<open>p = a # p'\<close> True show ?thesis by (simp add: path_root_def startswith_def)
        next
          case b: True
          with c1 p' assms have "c \<in> set (split_on CHR ''/'' p'')" by simp
          with c1 p' \<open>p = a # p'\<close> True b show ?thesis
            by (auto simp add: path_root_def startswith_def)
        qed
      qed
    qed
  qed
  then show ?thesis using assms
    by (auto simp: path_parts_def Let_def split_def)
qed

lemma path_join_git_nonempty: "path_join watched ''.git'' @ rest \<noteq> []"
  by (simp add: path_join_def startswith_def)

text \<open>
  C5. An event whose source path is the \<open>.git\<close> directory of the watched directory, or
  lies below it, leaves the handler as it was, whatever its kind: no timer is cancelled
  and none is started.
\<close>

theorem git_dir_events_ignored:
  assumes src: "src_path ev = Some (path_join watched ''.git'' @ rest)"
    and under: "rest = [] \<or> hd rest = CHR ''/''"
  shows "on_created h now ev w = w \<and> on_modified h now ev w = w \<and>
         on_deleted h now ev w = w \<and> on_moved h now ev w = w \<and>
         dispatch h now ev w = w"
proof -
  have "''.git'' \<in> set (path_parts (path_join watched ''.git'' @ rest))"
    by (rule parts_component[OF git_component[OF under]]) simp_all
  then have "on_event h now ev w = w"
    using src path_join_git_nonempty[of watched rest] by (simp add: on_event_def truthy_def)
  then show ?thesis
    by (simp add: on_created_def on_modified_def on_deleted_def on_moved_def dispatch_def
             split: event_kind.splits)
qed

theorem git_dir_events_ignored_witness:
  "dispatch example_handler 7 (modified_file ''/data/repo/.git/HEAD'')
      (reset_timer example_handler 5 (init_watcher start)) =
   \<lparr>timers = [\<lparr>deadline = 35, finished = False\<rparr>], timer_ref = Some 0, fired = [],
    world = start\<rparr>"
proof -
  have a: "src_path (modified_file ''/data/repo/.git/HEAD'') =
             Some (path_join ''/data/repo'' ''.git'' @ ''/HEAD'')"
    by (simp add: modified_file_def path_join_def startswith_def endswith_def)
  have b: "''/HEAD'' = [] \<or> hd ''/HEAD'' = CHR ''/''" by simp
  from git_dir_events_ignored[OF a b, of example_handler 7
         "reset_timer example_handler 5 (init_watcher start)"]
  show ?thesis by (simp add: reset_timer_def init_watcher_def example_handler_def)
qed

subsection \<open>Debouncing\<close>

lemma reset_dispatch:
  "spec_qualifying ev \<Longrightarrow> \<not> (kind ev = Modified \<and> is_directory ev) \<Longrightarrow>
   dispatch h now ev w = reset_timer h now w"
  by (cases "src_path ev")
     (auto simp: spec_qualifying_def dispatch_def on_created_def on_modified_def on_deleted_def
        on_moved_def on_event_def truthy_def path_parts_def path_root_def startswith_def
        Let_def split: event_kind.splits)

lemma reset_timer_world: "world (reset_timer h now w) = world w"
  by (simp add: reset_timer_def Let_def)

lemma reset_timer_armed:
  assumes "quiet w"
  shows "armed (nat (h_debounce_seconds h)) now (reset_timer h now w)"
proof (cases "timer_ref w")
  case None
  with assms show ?thesis
    by (auto simp: armed_def quiet_def reset_timer_def Let_def nth_append)
next
  case (Some i)
  with assms show ?thesis
    by (auto simp: armed_def quiet_def reset_timer_def cancel_def Let_def nth_append
          nth_list_update less_Suc_eq)
qed

lemma reset_timer_fired: "fired (reset_timer h now w) = fired w"
  by (simp add: reset_timer_def Let_def)

lemma armed_quiet: "armed d t w \<Longrightarrow> quiet w"
  by (auto simp: armed_def quiet_def)

lemma quiet_init: "quiet (init_watcher s)"
  by (simp add: quiet_def init_watcher_def)

lemma filter_upt_single:
  assumes "i < n" "\<And>j. j < n \<Longrightarrow> P j = (j = i)"
  shows "filter P [0 ..< n] = [i]"
proof -
  have "filter P [0 ..< n] = filter (\<lambda>j. j = i) [0 ..< n]"
    by (rule filter_cong) (use assms in auto)
  also have "\<dots> = [i]"
    using assms(1)
  proof (induction n)
    case 0
    then show ?case by simp
  next
    case (Suc n)
    then show ?case by (cases "i = n") (auto simp: filter_empty_conv)
  qed
  finally show ?thesis .
qed

lemma due_armed_early:
  assumes "armed d t0 w" "t < t0 + d"
  shows "due t w = []"
proof -
  have "filter (\<lambda>i. \<not> finished (timers w ! i) \<and> deadline (timers w ! i) \<le> t)
          [0 ..< length (timers w)] = []"
    using assms by (auto simp: armed_def filter_empty_conv)
  then show ?thesis by (simp add: due_def)
qed

lemma due_armed_late:
  assumes "armed d t0 w" "t0 + d \<le> t"
  shows "\<exists>i. due t w = [i] \<and> i < length (timers w) \<and> \<not> finished (timers w ! i) \<and>
             deadline (timers w ! i) = t0 + d"
proof -
  from assms(1) obtain i where i: "timer_ref w = Some i" "i < length (timers w)"
      "deadline (timers w ! i) = t0 + d" "\<not> finished (timers w ! i)"
      "\<forall>j < length (timers w). j \<noteq> i \<longrightarrow> finished (timers w ! j)"
    unfolding armed_def by blast
  have "filter (\<lambda>i. \<not> finished (timers w ! i) \<and> deadline (timers w ! i) \<le> t)
          [0 ..< length (timers w)] = [i]"
    by (rule filter_upt_single) (use i assms(2) in auto)
  then have "due t w = [i]" by (simp add: due_def)
  with i show ?thesis by blast
qed

lemma due_quiet_none:
  assumes "\<forall>j < length (timers w). finished (timers w ! j)"
  shows "due t w = []"
proof -
  have "filter (\<lambda>i. \<not> finished (timers w ! i) \<and> deadline (timers w ! i) \<le> t)
          [0 ..< length (timers w)] = []"
    using assms by (auto simp: filter_empty_conv)
  then show ?thesis by (simp add: due_def)
qed

lemma advance_armed_early: "armed d t0 w \<Longrightarrow> t < t0 + d \<Longrightarrow> advance x h t w = w"
  by (simp add: advance_def due_armed_early)

lemma fired_on_timer: "fired (on_timer x h now w) = fired w @ [now]"
  by (simp add: on_timer_def Let_def split_def)

lemma timers_on_timer: "timers (on_timer x h now w) = timers w"
  by (simp add: on_timer_def Let_def split_def)

lemma world_on_timer:
  "world (on_timer x h now w) =
     snd (do_commit_and_push x h (h_local_path h) ((world w)\<lparr>clock := now\<rparr>))"
  by (simp add: on_timer_def Let_def split_def)

lemma advance_armed_late:
  assumes "armed d t0 w" "t0 + d \<le> t"
  shows "fired (advance x h t w) = fired w @ [t0 + d] \<and>
         world (advance x h t w) =
           snd (do_commit_and_push x h (h_local_path h) ((world w)\<lparr>clock := t0 + d\<rparr>)) \<and>
         (\<forall>j < length (timers (advance x h t w)). finished (timers (advance x h t w) ! j))"
proof -
  from due_armed_late[OF assms] obtain i where i: "due t w = [i]" "i < length (timers w)"
      "\<not> finished (timers w ! i)" "deadline (timers w ! i) = t0 + d" by blast
  from assms(1) i have others: "\<forall>j < length (timers w). j \<noteq> i \<longrightarrow> finished (timers w ! j)"
    unfolding armed_def by auto
  have adv: "advance x h t w =
          (on_timer x h (t0 + d) w)\<lparr>timers := cancel i (timers (on_timer x h (t0 + d) w))\<rparr>"
    using i by (simp add: advance_def timer_run_def Let_def)
  show ?thesis
    unfolding adv using i others
    by (auto simp: fired_on_timer timers_on_timer world_on_timer cancel_def nth_list_update)
qed

lemma advance_all_finished:
  "\<forall>j < length (timers w). finished (timers w ! j) \<Longrightarrow> advance x h t w = w"
  by (simp add: advance_def due_quiet_none)

lemma run_events_armed:
  assumes "armed d t0 w" "d = nat (h_debounce_seconds h)"
    "burst d (t0 # map fst evs)"
    "\<forall>ev \<in> set evs. spec_qualifying (snd ev) \<and>
                     \<not> (kind (snd ev) = Modified \<and> is_directory (snd ev))"
  shows "armed d (last (t0 # map fst evs)) (run_events x h evs w) \<and>
         fired (run_events x h evs w) = fired w \<and>
         world (run_events x h evs w) = world w"
  using assms
proof (induction evs arbitrary: t0 w)
  case Nil
  then show ?case by simp
next
  case (Cons e evs)
  obtain t ev where e: "e = (t, ev)" by (cases e)
  from Cons.prems e have t: "t0 \<le> t" "t < t0 + d" "burst d (t # map fst evs)"
    and q: "spec_qualifying ev" "\<not> (kind ev = Modified \<and> is_directory ev)"
      "\<forall>ev \<in> set evs. spec_qualifying (snd ev) \<and>
                      \<not> (kind (snd ev) = Modified \<and> is_directory (snd ev))"
    by auto
  have adv: "advance x h t w = w"
    by (rule advance_armed_early[OF Cons.prems(1) t(2)])
  let ?w1 = "dispatch h t ev (advance x h t w)"
  have w1: "?w1 = reset_timer h t w" using adv q(1,2) by (simp add: reset_dispatch)
  have a1: "armed d t ?w1"
    unfolding w1 using reset_timer_armed[OF armed_quiet[OF Cons.prems(1)], of h t] Cons.prems(2)
    by simp
  have f1: "fired ?w1 = fired w" "world ?w1 = world w"
    unfolding w1 by (simp_all add: reset_timer_fired reset_timer_world)
  from Cons.IH[OF a1 Cons.prems(2) t(3) q(3)] f1 e show ?case by simp
qed

text \<open>
  C1, as the specification words it, fails: a modify notification for a directory
  outside \<open>.git\<close> is a qualifying event there, but \<open>on_modified\<close> returns on it before
  \<open>_on_event\<close>, so it does not restart the timer. A file modified at time 0 and a
  directory modified at time 20, with 30 seconds of debounce: the sync sequence runs at
  time 30, not at time 50.
\<close>

theorem debounce_directory_modified_counterexample:
  "spec_qualifying (modified_file ''/data/repo/a.txt'') \<and>
   spec_qualifying (modified_directory ''/data/repo/sub'') \<and>
   burst (nat (h_debounce_seconds example_handler)) [0, 20] \<and>
   fired (advance no_working_copy example_handler 1000
            (run_events no_working_copy example_handler
               [(0, modified_file ''/data/repo/a.txt''),
                (20, modified_directory ''/data/repo/sub'')]
               (init_watcher start))) = [30] \<and>
   [30] \<noteq> [20 + nat (h_debounce_seconds example_handler)]"
proof -
  let ?h = example_handler
  let ?w0 = "init_watcher start"
  let ?w1 = "reset_timer ?h 0 ?w0"
  have d: "nat (h_debounce_seconds ?h) = 30" by (simp add: example_handler_def)
  have p: "path_parts ''/data/repo/a.txt'' = [''/'', ''data'', ''repo'', ''a.txt'']"
          "path_parts ''/data/repo/sub'' = [''/'', ''data'', ''repo'', ''sub'']"
    by (simp_all add: path_parts_def path_root_def startswith_def)
  have q1: "spec_qualifying (modified_file ''/data/repo/a.txt'')"
    by (simp add: spec_qualifying_def modified_file_def p)
  have q2: "spec_qualifying (modified_directory ''/data/repo/sub'')"
    by (simp add: spec_qualifying_def modified_directory_def p)
  have adv0: "advance no_working_copy ?h 0 ?w0 = ?w0"
    by (rule advance_all_finished) (simp add: init_watcher_def)
  have e1: "dispatch ?h 0 (modified_file ''/data/repo/a.txt'') ?w0 = ?w1"
    by (rule reset_dispatch[OF q1]) (simp add: modified_file_def)
  have a1: "armed 30 0 ?w1"
    using reset_timer_armed[OF quiet_init, of ?h 0 start] d by simp
  have adv1: "advance no_working_copy ?h 20 ?w1 = ?w1"
    by (rule advance_armed_early[OF a1]) simp
  have e2: "dispatch ?h 20 (modified_directory ''/data/repo/sub'') ?w1 = ?w1"
    by (simp add: dispatch_def on_modified_def modified_directory_def)
  have run: "run_events no_working_copy ?h
               [(0, modified_file ''/data/repo/a.txt''),
                (20, modified_directory ''/data/repo/sub'')] ?w0 = ?w1"
    by (simp add: adv0 e1 adv1 e2)
  have f1: "fired ?w1 = []" by (simp add: reset_timer_fired init_watcher_def)
  have "fired (advance no_working_copy ?h 1000 ?w1) = [30]"
    using advance_armed_late[OF a1, of 1000 no_working_copy ?h] f1 by simp
  with run q1 q2 d show ?thesis by simp
qed

text \<open>
  C1, amended. After \<open>__init__\<close>, let one or more qualifying events other than modify
  notifications for directories arrive in order, each less than \<open>debounce_seconds\<close> after
  the one before. Then the sync sequence runs exactly once, \<open>debounce_seconds\<close> after the
  last event. Up to any time before that, no timer has fired and the outside world is as
  it was at the start; up to any later time, exactly one timer has fired, at that moment,
  and the outside world is what one run of \<open>_do_commit_and_push\<close> on the local path,
  started at that moment, makes of the world at the start. Every such event cancels the
  timer \<open>_timer\<close> refers to, if any, and starts a new one with the deadline
  \<open>now + debounce_seconds\<close>, to which \<open>_timer\<close> then refers.
\<close>

theorem debounce_fires_once:
  assumes nonempty: "evs \<noteq> []"
    and qual: "\<forall>ev \<in> set evs. spec_qualifying (snd ev) \<and>
                               \<not> (kind (snd ev) = Modified \<and> is_directory (snd ev))"
    and close: "burst (nat (h_debounce_seconds h)) (map fst evs)"
  shows "fired (advance x h T (run_events x h evs (init_watcher s))) =
           (if last (map fst evs) + nat (h_debounce_seconds h) \<le> T
            then [last (map fst evs) + nat (h_debounce_seconds h)] else []) \<and>
         world (advance x h T (run_events x h evs (init_watcher s))) =
           (if last (map fst evs) + nat (h_debounce_seconds h) \<le> T
            then snd (do_commit_and_push x h (h_local_path h)
                        (s\<lparr>clock := last (map fst evs) + nat (h_debounce_seconds h)\<rparr>))
            else s) \<and>
         (\<forall>ev now w.
            spec_qualifying ev \<and> \<not> (kind ev = Modified \<and> is_directory ev) \<longrightarrow>
            dispatch h now ev w =
              w\<lparr>timers := (case timer_ref w of Some i \<Rightarrow> cancel i (timers w) | None \<Rightarrow> timers w) @
                            [\<lparr>deadline = now + nat (h_debounce_seconds h), finished = False\<rparr>],
                timer_ref := Some (length (timers w))\<rparr>)"
proof -
  let ?d = "nat (h_debounce_seconds h)"
  let ?last = "last (map fst evs)"
  obtain t ev rest where evs: "evs = (t, ev) # rest"
    using nonempty by (cases evs) auto
  let ?w0 = "init_watcher s"
  have adv0: "advance x h t ?w0 = ?w0"
    by (rule advance_all_finished) (simp add: init_watcher_def)
  let ?w1 = "dispatch h t ev (advance x h t ?w0)"
  have w1: "?w1 = reset_timer h t ?w0"
    using adv0 qual evs by (simp add: reset_dispatch)
  have a1: "armed ?d t ?w1" unfolding w1 by (rule reset_timer_armed[OF quiet_init])
  have f1: "fired ?w1 = []" "world ?w1 = s"
    unfolding w1 by (simp_all add: reset_timer_fired reset_timer_world init_watcher_def)
  have b: "burst ?d (t # map fst rest)" using close evs by simp
  have q: "\<forall>ev \<in> set rest. spec_qualifying (snd ev) \<and>
                            \<not> (kind (snd ev) = Modified \<and> is_directory (snd ev))"
    using qual evs by simp
  from run_events_armed[OF a1 refl b q, of x]
  have a: "armed ?d ?last (run_events x h evs ?w0)"
    and f: "fired (run_events x h evs ?w0) = []"
    and wd: "world (run_events x h evs ?w0) = s"
    using evs f1 by simp_all
  have fires: "fired (advance x h T (run_events x h evs ?w0)) =
                 (if ?last + ?d \<le> T then [?last + ?d] else []) \<and>
               world (advance x h T (run_events x h evs ?w0)) =
                 (if ?last + ?d \<le> T
                  then snd (do_commit_and_push x h (h_local_path h) (s\<lparr>clock := ?last + ?d\<rparr>))
                  else s)"
  proof (cases "?last + ?d \<le> T")
    case True
    with advance_armed_late[OF a True, of x h] f wd show ?thesis by simp
  next
    case False
    then have "T < ?last + ?d" by simp
    from advance_armed_early[OF a this, of x h] f wd False show ?thesis by simp
  qed
  have resets: "dispatch h now ev w =
              w\<lparr>timers := (case timer_ref w of Some i \<Rightarrow> cancel i (timers w) | None \<Rightarrow> timers w) @
                            [\<lparr>deadline = now + nat (h_debounce_seconds h), finished = False\<rparr>],
                timer_ref := Some (length (timers w))\<rparr>"
    if "spec_qualifying ev \<and> \<not> (kind ev = Modified \<and> is_directory ev)" for ev now w
  proof -
    from that have "dispatch h now ev w = reset_timer h now w" by (simp add: reset_dispatch)
    moreover have "length (case timer_ref w of Some i \<Rightarrow> cancel i (timers w) | None \<Rightarrow> timers w) =
                   length (timers w)"
      by (simp add: cancel_def split: option.splits)
    ultimately show ?thesis by (simp add: reset_timer_def Let_def)
  qed
  from fires resets show ?thesis by blast
qed

theorem debounce_fires_once_witness:
  "(let w = advance (scripted diverged_git (\<lambda>h p. True) (\<lambda>h. RequestException) None)
              example_handler 1000
              (run_events (scripted diverged_git (\<lambda>h p. True) (\<lambda>h. RequestException) None)
                 example_handler
                 [(1, modified_file ''/data/repo/a.txt''), (20, modified_file ''/data/repo/b.txt''),
                  (45, modified_file ''/data/repo/a.txt'')]
                 (init_watcher start))
    in fired w = [75] \<and>
       world w =
         \<lparr>trace =
            [Spawn [''git'', ''status'', ''--porcelain''] ''/data/repo'' [] 120
               (Completed 0 '' M notes.txt'' ''''),
             Spawn [''git'', ''remote'', ''set-url'', ''origin'',
                    ''https://tok@github.com/owner/repo.git'']
               ''/data/repo'' [] 120 (Completed 0 '''' ''''),
             Spawn [''git'', ''pull'', ''--rebase''] ''/data/repo'' [] 120
               (Completed 1 '''' ''CONFLICT'')],
          clock = 75\<rparr>)"
proof -
  let ?x = "scripted diverged_git (\<lambda>h p. True) (\<lambda>h. RequestException) None"
  let ?evs = "[(1, modified_file ''/data/repo/a.txt''), (20, modified_file ''/data/repo/b.txt''),
               (45 :: nat, modified_file ''/data/repo/a.txt'')]"
  have p: "path_parts ''/data/repo/a.txt'' = [''/'', ''data'', ''repo'', ''a.txt'']"
          "path_parts ''/data/repo/b.txt'' = [''/'', ''data'', ''repo'', ''b.txt'']"
    by (simp_all add: path_parts_def path_root_def startswith_def)
  have a: "?evs \<noteq> []" by simp
  have b: "\<forall>ev \<in> set ?evs. spec_qualifying (snd ev) \<and>
                             \<not> (kind (snd ev) = Modified \<and> is_directory (snd ev))"
    by (simp add: spec_qualifying_def modified_file_def p)
  have c: "burst (nat (h_debounce_seconds example_handler)) (map fst ?evs)"
    by (simp add: example_handler_def)
  have u: "repo_url_with_token ''owner/repo'' (Some ''tok'') =
             ''https://tok@github.com/owner/repo.git''"
    by (simp add: eval_str eval_io)
  have sync: "snd (do_commit_and_push ?x example_handler ''/data/repo'' (start\<lparr>clock := 75\<rparr>)) =
         \<lparr>trace =
            [Spawn [''git'', ''status'', ''--porcelain''] ''/data/repo'' [] 120
               (Completed 0 '' M notes.txt'' ''''),
             Spawn [''git'', ''remote'', ''set-url'', ''origin'',
                    ''https://tok@github.com/owner/repo.git'']
               ''/data/repo'' [] 120 (Completed 0 '''' ''''),
             Spawn [''git'', ''pull'', ''--rebase''] ''/data/repo'' [] 120
               (Completed 1 '''' ''CONFLICT'')],
          clock = 75\<rparr>"
    by (simp add: do_commit_and_push_def has_changes_def pull_before_push_def
          refresh_remote_def set_remote_url_def u example_handler_def diverged_git_def
          eval_io eval_str)
  from debounce_fires_once[OF a b c, of ?x 1000 start] sync show ?thesis
    by (simp add: example_handler_def Let_def)
qed

section \<open>Properties of the detector\<close>

lemma normalize_owner_repo: "normalize_repo ''owner/repo'' = ''owner/repo''"
  by (simp add: normalize_repo_def match_https_def strip_def isspace_def startswith_def)

lemma split_owner_repo: "split_once CHR ''/'' ''owner/repo'' = (''owner'', ''repo'')"
  by (simp add: split_once_def)

lemma poll_loop_owner_repo:
  "poll_loop x ''owner/repo'' lp token branch i on_pull s =
     poll_while x ''owner/repo'' lp token branch i on_pull ''owner'' ''repo'' (None, s)"
  by (simp add: poll_loop_def normalize_owner_repo split_owner_repo startswith_def)

lemmas eval_poll = poll_iteration_def poll_try_def fetch_latest_sha_def time_sleep_def
  stop_wait_def is_set_def call_on_pull_def is_git_repo_def emit_def scripted_def start_def
  Let_def ret_def and_then_def

text \<open>
  C7. The wait after a failed query is \<open>time.sleep\<close>, which the stop signal does not
  interrupt. With an interval of 3600, a query that fails and the stop signal set one
  second after the start, the loop leaves only when the sleep is over, at time 3600.
\<close>

theorem failed_query_sleep_uninterruptible:
  "poll_loop (scripted all_succeed (\<lambda>h p. True) (\<lambda>h. RequestException) (Some 1))
      ''owner/repo'' ''/data/repo'' None ''main'' 3600 None start =
   Some (None,
     \<lparr>trace = [HttpGet ''https://api.github.com/repos/owner/repo/commits/main''
                 [(''Accept'', ''application/vnd.github.v3+json'')] 10 RequestException,
               Sleep 3600],
      clock = 3600\<rparr>)"
  unfolding poll_loop_owner_repo
  apply (subst poll_while.simps)
  apply (simp add: eval_poll truthy_def GITHUB_API_def)
  apply (subst poll_while.simps)
  apply (simp add: eval_poll)
  done

text \<open>
  The wait at the end of an iteration is \<open>stop_event.wait\<close>: in the same situation
  with a query that succeeds, the loop leaves at time 1.
\<close>

lemma successful_query_wait_interrupted:
  "poll_loop (scripted all_succeed (\<lambda>h p. True) (\<lambda>h. JsonSha (Some ''abc'')) (Some 1))
      ''owner/repo'' ''/data/repo'' None ''main'' 3600 None start =
   Some (Some ''abc'',
     \<lparr>trace = [HttpGet ''https://api.github.com/repos/owner/repo/commits/main''
                 [(''Accept'', ''application/vnd.github.v3+json'')] 10 (JsonSha (Some ''abc'')),
               Wait 3600],
      clock = 1\<rparr>)"
  unfolding poll_loop_owner_repo
  apply (subst poll_while.simps)
  apply (simp add: eval_poll truthy_def GITHUB_API_def)
  apply (subst poll_while.simps)
  apply (simp add: eval_poll)
  done

text \<open>
  C10. Let the local path be a working copy and the query return a revision. With no
  last-seen revision, the iteration adopts the revision and adds nothing to the trace
  but the query and the wait: no pull. With that revision as last-seen, a query that
  returns it again does the same. With a different last-seen revision, \<open>pull\<close> is called;
  its success adopts the new revision, anything else keeps the old one.
\<close>

theorem first_revision_adopted:
  assumes fetched: "fetch_latest_sha x owner repo_name branch token s = (Inr (Some sha), s1)"
    and present: "isdir x (trace s1) (path_join lp ''.git'')"
  shows "poll_iteration x repo lp token branch interval on_pull owner repo_name (None, s) =
           (Some sha, stop_wait x interval s1) \<and>
         poll_iteration x repo lp token branch interval on_pull owner repo_name (Some sha, s) =
           (Some sha, stop_wait x interval s1) \<and>
         (\<exists>url headers.
            new_events s (stop_wait x interval s1) =
              [HttpGet url headers 10 (JsonSha (Some sha)), Wait interval]) \<and>
         (a \<noteq> sha \<longrightarrow>
            poll_iteration x repo lp token branch interval on_pull owner repo_name (Some a, s) =
              (case pull x lp token (Some repo) s1 of
                 (Inr True, s2) \<Rightarrow>
                   (Some sha, stop_wait x interval (snd (call_on_pull on_pull s2)))
               | (r, s2) \<Rightarrow> (Some a, stop_wait x interval s2)))"
proof (intro conjI impI)
  show "poll_iteration x repo lp token branch interval on_pull owner repo_name (None, s) =
           (Some sha, stop_wait x interval s1)"
    using fetched present by (simp add: poll_iteration_def poll_try_def is_git_repo_def)
  show "poll_iteration x repo lp token branch interval on_pull owner repo_name (Some sha, s) =
           (Some sha, stop_wait x interval s1)"
    using fetched present by (simp add: poll_iteration_def poll_try_def is_git_repo_def)
  show "\<exists>url headers. new_events s (stop_wait x interval s1) =
              [HttpGet url headers 10 (JsonSha (Some sha)), Wait interval]"
    using fetched
    by (auto simp: fetch_latest_sha_def stop_wait_def emit_def new_events_def Let_def
             split: http_outcome.splits)
next
  assume "a \<noteq> sha"
  then show "poll_iteration x repo lp token branch interval on_pull owner repo_name (Some a, s) =
              (case pull x lp token (Some repo) s1 of
                 (Inr True, s2) \<Rightarrow>
                   (Some sha, stop_wait x interval (snd (call_on_pull on_pull s2)))
               | (r, s2) \<Rightarrow> (Some a, stop_wait x interval s2))"
    using fetched present
    by (auto simp: poll_iteration_def poll_try_def is_git_repo_def
             split: prod.splits sum.splits bool.splits flow.splits)
qed


theorem first_revision_adopted_witness:
  "poll_iteration (scripted all_succeed (\<lambda>h p. True) (\<lambda>h. JsonSha (Some ''abc'')) None)
      ''owner/repo'' ''/data/repo'' None ''main'' 60 None ''owner'' ''repo'' (None, start) =
   (Some ''abc'',
     \<lparr>trace = [HttpGet ''https://api.github.com/repos/owner/repo/commits/main''
                 [(''Accept'', ''application/vnd.github.v3+json'')] 10 (JsonSha (Some ''abc'')),
               Wait 60],
      clock = 60\<rparr>)"
proof -
  let ?x = "scripted all_succeed (\<lambda>h p. True) (\<lambda>h. JsonSha (Some ''abc'')) None"
  let ?s1 = "\<lparr>trace = [HttpGet ''https://api.github.com/repos/owner/repo/commits/main''
                 [(''Accept'', ''application/vnd.github.v3+json'')] 10 (JsonSha (Some ''abc''))],
      clock = 0\<rparr>"
  have a: "fetch_latest_sha ?x ''owner'' ''repo'' ''main'' None start = (Inr (Some ''abc''), ?s1)"
    by (simp add: fetch_latest_sha_def GITHUB_API_def truthy_def emit_def scripted_def
          start_def Let_def)
  have b: "isdir ?x (trace ?s1) (path_join ''/data/repo'' ''.git'')"
    by (simp add: scripted_def)
  from first_revision_adopted[OF a b, of "''owner/repo''" 60 None]
  show ?thesis by (simp add: stop_wait_def emit_def scripted_def)
qed

lemma gateway_calls_simps [simp]:
  "gateway_calls [] = []"
  "gateway_calls (e # evs) = gateway_call e @ gateway_calls evs"
  "gateway_calls (evs @ evs') = gateway_calls evs @ gateway_calls evs'"
  by (simp_all add: gateway_calls_def)

text \<open>
  C2. A fresh mirror, the remote revisions \<open>A, A, B, B, A\<close> with \<open>A \<noteq> B\<close> seen one per
  iteration, every call succeeding, the stop signal set after five intervals. The loop
  exits after exactly five iterations. The last-seen revision and the clone and pull
  calls made so far are, after each iteration: \<open>A\<close> and one clone; the same; \<open>B\<close> and one
  more pull; the same; \<open>A\<close> and a second pull.
\<close>

theorem detector_scenario:
  assumes distinct: "A \<noteq> B"
  shows "let x = scripted all_succeed (cloned_dirs lp) (revisions_api [A, A, B, B, A]) (Some 300);
             step = poll_iteration x ''owner/repo'' lp token branch 60 None ''owner'' ''repo'';
             st1 = step (None, start); st2 = step st1; st3 = step st2; st4 = step st3;
             st5 = step st4
         in poll_loop x ''owner/repo'' lp token branch 60 None start = Some st5 \<and>
            map (\<lambda>st. (fst st, gateway_calls (trace (snd st)))) [st1, st2, st3, st4, st5] =
              [(Some A, [''clone'']),
               (Some A, [''clone'']),
               (Some B, [''clone'', ''pull'']),
               (Some B, [''clone'', ''pull'']),
               (Some A, [''clone'', ''pull'', ''pull''])]"
proof -
  let ?x = "scripted all_succeed (cloned_dirs lp) (revisions_api [A, A, B, B, A]) (Some 300)"
  let ?step = "poll_iteration ?x ''owner/repo'' lp token branch 60 None ''owner'' ''repo''"
  have ne: "B \<noteq> A" using distinct by simp
  note ev = eval_poll clone_def pull_def refresh_remote_def set_remote_url_def run_git_def
    os_makedirs_def all_succeed_def cloned_dirs_def revisions_api_def
  obtain l1 s1 where st1: "?step (None, start) = (l1, s1)" by (cases "?step (None, start)")
  have r1: "l1 = Some A \<and> gateway_calls (trace s1) = [''clone''] \<and> clock s1 = 60 \<and>
            length (filter is_query (trace s1)) = 1 \<and> list_ex is_clone_ok (trace s1)"
    using st1 by (auto simp: ev)
  obtain l2 s2 where st2: "?step (l1, s1) = (l2, s2)" by (cases "?step (l1, s1)")
  have r2: "l2 = Some A \<and> gateway_calls (trace s2) = [''clone''] \<and> clock s2 = 120 \<and>
            length (filter is_query (trace s2)) = 2 \<and> list_ex is_clone_ok (trace s2)"
    using st2 r1 by (auto simp: ev)
  obtain l3 s3 where st3: "?step (l2, s2) = (l3, s3)" by (cases "?step (l2, s2)")
  have r3: "l3 = Some B \<and> gateway_calls (trace s3) = [''clone'', ''pull''] \<and> clock s3 = 180 \<and>
            length (filter is_query (trace s3)) = 3 \<and> list_ex is_clone_ok (trace s3)"
    using st3 r2 distinct ne by (cases "truthy token") (auto simp: ev truthy_def)
  obtain l4 s4 where st4: "?step (l3, s3) = (l4, s4)" by (cases "?step (l3, s3)")
  have r4: "l4 = Some B \<and> gateway_calls (trace s4) = [''clone'', ''pull''] \<and> clock s4 = 240 \<and>
            length (filter is_query (trace s4)) = 4 \<and> list_ex is_clone_ok (trace s4)"
    using st4 r3 distinct ne by (auto simp: ev)
  obtain l5 s5 where st5: "?step (l4, s4) = (l5, s5)" by (cases "?step (l4, s4)")
  have r5: "l5 = Some A \<and> gateway_calls (trace s5) = [''clone'', ''pull'', ''pull''] \<and>
            clock s5 = 300"
    using st5 r4 distinct ne by (cases "truthy token") (auto simp: ev truthy_def)
  have c0: "clock start = 0" by (simp add: start_def)
  have stop: "\<And>s. is_set ?x s = (300 \<le> clock s)"
    by (simp add: is_set_def scripted_def)
  have q1: "?step (None, start) = (Some A, s1)" using st1 r1 by simp
  have q2: "?step (Some A, s1) = (Some A, s2)" using st2 r1 r2 by simp
  have q3: "?step (Some A, s2) = (Some B, s3)" using st3 r2 r3 by simp
  have q4: "?step (Some B, s3) = (Some B, s4)" using st4 r3 r4 by simp
  have q5: "?step (Some B, s4) = (Some A, s5)" using st5 r4 r5 by simp
  have loop: "poll_while ?x ''owner/repo'' lp token branch 60 None ''owner'' ''repo'' (None, start) =
                Some (Some A, s5)"
    apply (subst poll_while.simps, simp only: stop c0 snd_conv q1, simp)
    apply (subst poll_while.simps, simp only: stop r1 snd_conv q2, simp)
    apply (subst poll_while.simps, simp only: stop r2 snd_conv q3, simp)
    apply (subst poll_while.simps, simp only: stop r3 snd_conv q4, simp)
    apply (subst poll_while.simps, simp only: stop r4 snd_conv q5, simp)
    apply (subst poll_while.simps, simp only: stop r5 snd_conv, simp)
    done
  show ?thesis
    unfolding Let_def poll_loop_owner_repo
    using loop q1 q2 q3 q4 q5 r1 r2 r3 r4 r5 by simp
qed

theorem detector_scenario_witness:
  "''aaa'' \<noteq> ''bbb'' \<and>
   (\<exists>s. poll_loop
          (scripted all_succeed (cloned_dirs ''/data/repo'')
             (revisions_api [''aaa'', ''aaa'', ''bbb'', ''bbb'', ''aaa'']) (Some 300))
          ''owner/repo'' ''/data/repo'' (Some ''tok'') ''main'' 60 None start = Some (Some ''aaa'', s) \<and>
        gateway_calls (trace s) = [''clone'', ''pull'', ''pull''])"
proof -
  have d: "''aaa'' \<noteq> ''bbb''" by simp
  from detector_scenario[OF d, of "''/data/repo''" "Some ''tok''" "''main''"]
  show ?thesis
    unfolding Let_def by (auto simp: prod_eq_iff)
qed


end
